theory Spec2Isabelle
  imports Main
begin

section \<open>Strings, bytes and errors\<close>

text \<open>
  The module \<^verbatim>\<open>utils_emacs.py\<close> talks to a running Emacs through \<^verbatim>\<open>emacsclient\<close>,
  reads the answer from a temporary file and parses a small line protocol.

  A Python \<^verbatim>\<open>str\<close> is represented by its UTF-8 encoding, a \<^typ>\<open>string\<close> of 8-bit
  characters; \<^verbatim>\<open>bytes\<close> are a \<^typ>\<open>string\<close> as well.  Every string operation of the
  module (splitting at the line feed, matching an ASCII prefix, the regular expression
  \<^verbatim>\<open>.+\<close>, joining, substitution into a template, splitting a path at the slash) acts on the
  encoding exactly as it acts on the code points, since in UTF-8 the bytes below 0x80
  occur only as the ASCII characters themselves.
\<close>

type_synonym str = string
type_synonym bytes = string

text \<open>
  The exceptions that can leave the functions of the module.  \<^verbatim>\<open>HTTPException\<close> carries
  its \<^verbatim>\<open>status_code\<close> and its \<^verbatim>\<open>detail\<close>; \<^verbatim>\<open>OSError\<close> stands for whatever
  \<^verbatim>\<open>subprocess.run\<close> itself raises (the executable is missing, for instance).
\<close>

datatype error =
    HTTPException nat str
  | IndexError
  | KeyError str
  | ValueError
  | UnicodeDecodeError
  | OSError str

definition newline :: char where
  "newline = CHR 0x0A"

text \<open>\<^verbatim>\<open>s.split(sep)\<close> for a separator of one character: never the empty list.\<close>

fun str_split :: "char \<Rightarrow> str \<Rightarrow> str list" where
  "str_split sep [] = [[]]"
| "str_split sep (c # cs) =
     (if c = sep then [] # str_split sep cs
      else (case str_split sep cs of
              l # ls \<Rightarrow> (c # l) # ls
            | [] \<Rightarrow> [[c]]))"

text \<open>\<^verbatim>\<open>sep.join(xs)\<close>.\<close>

fun str_join :: "str \<Rightarrow> str list \<Rightarrow> str" where
  "str_join sep [] = []"
| "str_join sep [x] = x"
| "str_join sep (x # y # ys) = x @ sep @ str_join sep (y # ys)"

text \<open>\<^verbatim>\<open>xs[i]\<close> for a literal index \<open>i \<ge> 0\<close>: out of range raises \<^verbatim>\<open>IndexError\<close>.\<close>

definition getitem :: "'a list \<Rightarrow> nat \<Rightarrow> error + 'a" where
  "getitem xs i = (if i < length xs then Inr (xs ! i) else Inl IndexError)"

text \<open>
  \<^verbatim>\<open>re.match(lit + "(.+)", s)\<close> for a literal \<open>lit\<close> without metacharacters, as in
  \<^verbatim>\<open>re.match("id:(.+)", lines[0])\<close>.  The match is anchored at the start of \<open>s\<close> only;
  \<^verbatim>\<open>.\<close> is any character but the line feed and \<^verbatim>\<open>+\<close> is greedy, so group 1 is
  the longest run without a line feed after the literal, and it must not be empty.
  The result is \<^verbatim>\<open>mo.group(1)\<close>, or \<open>None\<close> for no match.
\<close>

definition re_match :: "str \<Rightarrow> str \<Rightarrow> str option" where
  "re_match lit s =
     (if take (length lit) s = lit
      then (let g = takeWhile (\<lambda>c. c \<noteq> newline) (drop (length lit) s)
            in if g = [] then None else Some g)
      else None)"

section \<open>Decoding UTF-8\<close>

text \<open>
  \<^verbatim>\<open>b.decode("utf-8")\<close> with the default strict error handler: well-formed UTF-8 only
  (no overlong forms, no surrogates, nothing above U+10FFFF), else
  \<^verbatim>\<open>UnicodeDecodeError\<close>.  As a \<^verbatim>\<open>str\<close> is represented by its encoding, decoding
  returns the bytes themselves when they are well formed.
\<close>

definition in_range :: "char \<Rightarrow> nat \<Rightarrow> nat \<Rightarrow> bool" where
  "in_range c lo hi \<longleftrightarrow> lo \<le> of_char c \<and> (of_char c :: nat) \<le> hi"

fun utf8_valid :: "bytes \<Rightarrow> bool" where
  "utf8_valid [] = True"
| "utf8_valid (b # bs) =
     (let n = (of_char b :: nat) in
      if n < 0x80 then utf8_valid bs
      else if 0xC2 \<le> n \<and> n \<le> 0xDF then
        (case bs of
           c1 # r \<Rightarrow> in_range c1 0x80 0xBF \<and> utf8_valid r
         | _ \<Rightarrow> False)
      else if 0xE0 \<le> n \<and> n \<le> 0xEF then
        (case bs of
           c1 # c2 # r \<Rightarrow>
             in_range c1 (if n = 0xE0 then 0xA0 else 0x80) (if n = 0xED then 0x9F else 0xBF)
             \<and> in_range c2 0x80 0xBF \<and> utf8_valid r
         | _ \<Rightarrow> False)
      else if 0xF0 \<le> n \<and> n \<le> 0xF4 then
        (case bs of
           c1 # c2 # c3 # r \<Rightarrow>
             in_range c1 (if n = 0xF0 then 0x90 else 0x80) (if n = 0xF4 then 0x8F else 0xBF)
             \<and> in_range c2 0x80 0xBF \<and> in_range c3 0x80 0xBF \<and> utf8_valid r
         | _ \<Rightarrow> False)
      else False)"

definition decode_utf8 :: "bytes \<Rightarrow> error + str" where
  "decode_utf8 b = (if utf8_valid b then Inr b else Inl UnicodeDecodeError)"

section \<open>The editor bridge: \<^verbatim>\<open>ask_emacs\<close>\<close>

text \<open>
  The world the module runs in: the named files, the module-level \<^verbatim>\<open>mutex = Lock()\<close>
  and the records written with \<^verbatim>\<open>logging.error\<close>.
\<close>

record world =
  files :: "str \<rightharpoonup> bytes"
  mutex_locked :: bool
  log :: "str list"

text \<open>What \<^verbatim>\<open>subprocess.run(cmd, capture_output=True, text=True)\<close> returns.\<close>

record completed_process =
  returncode :: int
  stdout :: str
  stderr :: str

text \<open>
  The operating system is a parameter: \<open>mktemp\<close> is the name that
  \<^verbatim>\<open>tempfile.NamedTemporaryFile()\<close> chooses (a name not in use; nothing below depends
  on that), and \<open>subprocess_run\<close> is what running a
  command does: it either raises (\<open>Inl\<close>, the message of the \<^verbatim>\<open>OSError\<close>) or
  completes, and it writes files (name and content, in order) on the way.
\<close>

record os_env =
  mktemp :: "world \<Rightarrow> str"
  subprocess_run :: "str list \<Rightarrow> (str \<rightharpoonup> bytes) \<Rightarrow> (str + completed_process) \<times> (str \<times> bytes) list"

fun apply_writes :: "(str \<times> bytes) list \<Rightarrow> (str \<rightharpoonup> bytes) \<Rightarrow> (str \<rightharpoonup> bytes)" where
  "apply_writes [] fs = fs"
| "apply_writes ((name, content) # ws) fs = apply_writes ws (fs(name \<mapsto> content))"

text \<open>
  \<^verbatim>\<open>tmp.read()\<close> on the handle that \<^verbatim>\<open>NamedTemporaryFile\<close> opened.  The file exists
  while the handle is open (the subprocess of this model writes files and removes none).
\<close>

definition read_file :: "world \<Rightarrow> str \<Rightarrow> bytes" where
  "read_file w name = (case files w name of Some b \<Rightarrow> b | None \<Rightarrow> [])"

text \<open>
  The command line of \<^verbatim>\<open>ask_emacs\<close>: \<^verbatim>\<open>cmd = ["emacsclient"]\<close>, then \<^verbatim>\<open>-c\<close> and
  \<^verbatim>\<open>--no-wait\<close> when a frame is asked for, then \<^verbatim>\<open>--eval\<close> and the snippet wrapped
  as \<^verbatim>\<open>f'(write-region {elisp} nil "{tmp.name}")'\<close>.
\<close>

definition emacsclient_cmd :: "str \<Rightarrow> bool \<Rightarrow> str \<Rightarrow> str list" where
  \<open>emacsclient_cmd elisp create_frame name =
     [''emacsclient''] @ (if create_frame then [''-c'', ''--no-wait''] else [])
       @ [''--eval'', ''(write-region '' @ elisp @ '' nil "'' @ name @ ''")'']\<close>

text \<open>
  \<^verbatim>\<open>ask_emacs(elisp, create_frame=False)\<close>.  The block
  \<^verbatim>\<open>with tempfile.NamedTemporaryFile() as tmp\<close> creates the empty file and removes
  it when the block is left, by \<^verbatim>\<open>return\<close> or by an exception; the block
  \<^verbatim>\<open>with mutex\<close> acquires the lock around \<^verbatim>\<open>subprocess.run\<close> and releases it when
  the call returns or raises.  Acquiring a lock that is held blocks; in this sequential
  model nobody else can release it, so the call never returns: the result is \<open>None\<close>.
  \<^verbatim>\<open>ret.returncode\<close> and \<^verbatim>\<open>ret.stdout\<close> are not read.
\<close>

definition ask_emacs :: "os_env \<Rightarrow> str \<Rightarrow> bool \<Rightarrow> world \<Rightarrow> ((error + str) \<times> world) option" where
  "ask_emacs os elisp create_frame w =
     (let name = mktemp os w;
          w1 = w\<lparr>files := (files w)(name \<mapsto> [])\<rparr>;
          cmd = emacsclient_cmd elisp create_frame name
      in if mutex_locked w1 then None
         else
          (let w2 = w1\<lparr>mutex_locked := True\<rparr>;
               (ret, writes) = subprocess_run os cmd (files w2);
               w3 = w2\<lparr>files := apply_writes writes (files w2), mutex_locked := False\<rparr>;
               closed = w3\<lparr>files := (files w3)(name := None)\<rparr>
           in case ret of
                Inl msg \<Rightarrow> Some (Inl (OSError msg), closed)
              | Inr cp \<Rightarrow>
                  if stderr cp \<noteq> [] then Some (Inl (HTTPException 404 (stderr cp)), closed)
                  else Some (decode_utf8 (read_file w3 name), closed)))"

text \<open>
  A concrete operating system for running the model: the temporary file is always
  \<^verbatim>\<open>/tmp/tmpq3x9\<close>, and every command completes with the given exit code and standard
  error after writing the given bytes to that file.  \<open>emacs_missing\<close> is a system where
  the command cannot be started.
\<close>

definition emacs_stub :: "int \<Rightarrow> str \<Rightarrow> bytes \<Rightarrow> os_env" where
  "emacs_stub code err content =
     \<lparr>mktemp = (\<lambda>w. ''/tmp/tmpq3x9''),
      subprocess_run = (\<lambda>cmd fs.
        (Inr \<lparr>returncode = code, stdout = [], stderr = err\<rparr>, [(''/tmp/tmpq3x9'', content)]))\<rparr>"

definition emacs_missing :: os_env where
  "emacs_missing =
     \<lparr>mktemp = (\<lambda>w. ''/tmp/tmpq3x9''),
      subprocess_run = (\<lambda>cmd fs. (Inl ''No such file or directory'', []))\<rparr>"

definition world0 :: world where
  "world0 = \<lparr>files = Map.empty, mutex_locked = False, log = []\<rparr>"

section \<open>The node finder: \<^verbatim>\<open>select_node\<close>\<close>

definition ELISP_SN :: str where
  \<open>ELISP_SN =
     ''\<newline>(progn\<newline>'' @
     ''  (org-roam-node-find)\<newline>'' @
     ''  (let ((node (org-roam-node-at-point)))\<newline>'' @
     ''    (format "id:%s\<newline>'' @
     ''title:%s\<newline>'' @
     ''file:%s" (org-roam-node-id node) (org-roam-node-title node) (org-roam-node-file node)))\<newline>'' @
     '')''\<close>

text \<open>A Python \<^verbatim>\<open>dict\<close> with string keys and string values.\<close>

type_synonym pydict = "string \<rightharpoonup> str"

text \<open>
  The body of \<^verbatim>\<open>select_node\<close> after the call of \<^verbatim>\<open>ask_emacs\<close>: the nested
  \<^verbatim>\<open>if mo := re.match(...)\<close> leave \<^verbatim>\<open>output_dict\<close> at \<^verbatim>\<open>None\<close> unless all
  three match; \<^verbatim>\<open>lines[1]\<close> and \<^verbatim>\<open>lines[2]\<close> are evaluated only when the line
  before has matched, and raise \<^verbatim>\<open>IndexError\<close> when the line is not there.
\<close>

definition select_node_dict :: "str list \<Rightarrow> error + pydict option" where
  "select_node_dict lines =
     (case getitem lines 0 of
        Inl e \<Rightarrow> Inl e
      | Inr l0 \<Rightarrow>
         (case re_match ''id:'' l0 of
            None \<Rightarrow> Inr None
          | Some mo_i \<Rightarrow>
             (case getitem lines 1 of
                Inl e \<Rightarrow> Inl e
              | Inr l1 \<Rightarrow>
                 (case re_match ''title:'' l1 of
                    None \<Rightarrow> Inr None
                  | Some mo_t \<Rightarrow>
                     (case getitem lines 2 of
                        Inl e \<Rightarrow> Inl e
                      | Inr l2 \<Rightarrow>
                         (case re_match ''file:'' l2 of
                            None \<Rightarrow> Inr None
                          | Some mo_f \<Rightarrow>
                              Inr (Some [''id'' \<mapsto> mo_i, ''title'' \<mapsto> mo_t, ''file'' \<mapsto> mo_f])))))))"

definition select_node_parse :: "str \<Rightarrow> error + pydict" where
  "select_node_parse output =
     (let lines = str_split newline output in
      case select_node_dict lines of
        Inl e \<Rightarrow> Inl e
      | Inr None \<Rightarrow> Inl (HTTPException 404 ''No node selected'')
      | Inr (Some output_dict) \<Rightarrow> Inr output_dict)"

definition select_node :: "os_env \<Rightarrow> world \<Rightarrow> ((error + pydict) \<times> world) option" where
  "select_node os w =
     (case ask_emacs os ELISP_SN True w of
        None \<Rightarrow> None
      | Some (Inl e, w') \<Rightarrow> Some (Inl e, w')
      | Some (Inr output, w') \<Rightarrow> Some (select_node_parse output, w'))"

section \<open>Substitution into a template: \<^verbatim>\<open>str.format\<close>\<close>

text \<open>
  \<^verbatim>\<open>template.format(**kwargs)\<close> for templates whose replacement fields are plain
  keyword names.  Literal text is copied, \<^verbatim>\<open>{{\<close> and \<^verbatim>\<open>}}\<close> stand for one brace, a
  field \<^verbatim>\<open>{name}\<close> is replaced by \<^verbatim>\<open>kwargs[name]\<close> as it is (the value is a
  \<^verbatim>\<open>str\<close> and the format specification is empty), a missing name raises
  \<^verbatim>\<open>KeyError\<close>, an empty or numeric field is positional and raises
  \<^verbatim>\<open>IndexError\<close> since there are no positional arguments, and a single closing brace
  or an unclosed field raises \<^verbatim>\<open>ValueError\<close>.  The template is read from left to
  right and the first error wins.  Fields with a conversion, a format specification, an
  attribute or an index (\<^verbatim>\<open>!\<close>, \<^verbatim>\<open>:\<close>, \<^verbatim>\<open>.\<close>, \<^verbatim>\<open>[\<close>) or a nested brace are
  outside this fragment: \<open>Unmodelled\<close> marks them; it is no Python exception.
\<close>

datatype format_error = Raises error | Unmodelled

definition lookup_field :: "(str \<rightharpoonup> str) \<Rightarrow> str \<Rightarrow> format_error + str" where
  "lookup_field kwargs name =
     (if list_all (\<lambda>c. c \<in> set ''0123456789'') name then Inl (Raises IndexError)
      else (case kwargs name of
              None \<Rightarrow> Inl (Raises (KeyError name))
            | Some v \<Rightarrow> Inr v))"

definition emit :: "str \<Rightarrow> format_error + str \<Rightarrow> format_error + str" where
  "emit s r = (case r of Inl e \<Rightarrow> Inl e | Inr t \<Rightarrow> Inr (s @ t))"

text \<open>
  The second argument is the state of the scan: \<open>None\<close> in literal text,
  \<open>Some name\<close> inside a field whose name has been read so far.
\<close>

fun format_scan :: "(str \<rightharpoonup> str) \<Rightarrow> str option \<Rightarrow> str \<Rightarrow> format_error + str" where
  "format_scan kwargs None [] = Inr []"
| "format_scan kwargs (Some name) [] = Inl (Raises ValueError)"
| "format_scan kwargs None (c # cs) =
     (if c = CHR ''{'' then
        (case cs of
           [] \<Rightarrow> Inl (Raises ValueError)
         | d # ds \<Rightarrow>
             if d = CHR ''{'' then emit [c] (format_scan kwargs None ds)
             else format_scan kwargs (Some []) cs)
      else if c = CHR ''}'' then
        (case cs of
           [] \<Rightarrow> Inl (Raises ValueError)
         | d # ds \<Rightarrow>
             if d = CHR ''}'' then emit [c] (format_scan kwargs None ds)
             else Inl (Raises ValueError))
      else emit [c] (format_scan kwargs None cs))"
| "format_scan kwargs (Some name) (c # cs) =
     (if c = CHR ''}'' then
        (case lookup_field kwargs name of
           Inl e \<Rightarrow> Inl e
         | Inr v \<Rightarrow> emit v (format_scan kwargs None cs))
      else if c \<in> set ''{!:.['' then Inl Unmodelled
      else format_scan kwargs (Some (name @ [c])) cs)"

definition str_format :: "str \<Rightarrow> (str \<rightharpoonup> str) \<Rightarrow> format_error + str" where
  "str_format template kwargs = format_scan kwargs None template"

section \<open>Paths: \<^verbatim>\<open>pathlib.Path(fn).parent\<close>\<close>

text \<open>
  The module runs on a POSIX system (it calls \<^verbatim>\<open>emacsclient\<close> and reads
  \<^verbatim>\<open>/dev/stdin\<close>), where \<^verbatim>\<open>Path\<close> is \<^verbatim>\<open>PosixPath\<close>.  A path is its root
  (\<^verbatim>\<open>""\<close>, \<^verbatim>\<open>"/"\<close> or \<^verbatim>\<open>"//"\<close>) and the list of its components; the drive is
  always empty.  Two paths are equal when their roots and their components are.
\<close>

record posix_path =
  root :: str
  tail :: "str list"

text \<open>\<^verbatim>\<open>posixpath.splitroot\<close>: exactly two leading slashes are a root of their own.\<close>

definition splitroot :: "str \<Rightarrow> str \<times> str" where
  "splitroot p =
     (if take 1 p \<noteq> ''/'' then ([], p)
      else if take 1 (drop 1 p) \<noteq> ''/'' \<or> take 1 (drop 2 p) = ''/'' then (''/'', drop 1 p)
      else (take 2 p, drop 2 p))"

text \<open>The constructor drops empty components and \<^verbatim>\<open>"."\<close>, and keeps \<^verbatim>\<open>".."\<close>.\<close>

definition Path :: "str \<Rightarrow> posix_path" where
  "Path p =
     (if p = [] then \<lparr>root = [], tail = []\<rparr>
      else (let (r, rel) = splitroot p
            in \<lparr>root = r, tail = filter (\<lambda>x. x \<noteq> [] \<and> x \<noteq> ''.'') (str_split CHR ''/'' rel)\<rparr>))"

text \<open>\<^verbatim>\<open>PurePath.parent\<close>: a path without components is its own parent.\<close>

definition parent :: "posix_path \<Rightarrow> posix_path" where
  "parent p = (if tail p = [] then p else p\<lparr>tail := butlast (tail p)\<rparr>)"

text \<open>\<^verbatim>\<open>str(path)\<close>: the root and the components joined by slashes, or a dot.\<close>

definition path_str :: "posix_path \<Rightarrow> str" where
  "path_str p = (if root p = [] \<and> tail p = [] then ''.'' else root p @ str_join ''/'' (tail p))"

section \<open>The node detail fetcher: \<^verbatim>\<open>get_or_node_details\<close>\<close>

definition ELISP_GND :: str where
  \<open>ELISP_GND =
     ''(let ((fnpos (org-roam-id-find "{node_id}")))\<newline>'' @
     ''  (when fnpos\<newline>'' @
     ''    (with-temp-buffer\<newline>'' @
     ''      (insert-file-contents (car fnpos))\<newline>'' @
     ''      (goto-char (cdr fnpos))\<newline>'' @
     ''      (let* ((node (org-roam-node-at-point))\<newline>'' @
     ''             (html (org-export-as 'html (org-at-heading-p) nil t)))\<newline>'' @
     ''        (format "title:%s\<newline>'' @
     ''file:%s\<newline>'' @
     ''%s" (org-roam-node-title node) (org-roam-node-file node) html)\<newline>'' @
     ''        ))))\<newline>''\<close>

text \<open>
  \<^verbatim>\<open>logging.error(f"Unable to parse output from emacsclient: {output}")\<close> appends a
  record to the log.
\<close>

definition logging_error :: "str \<Rightarrow> world \<Rightarrow> world" where
  "logging_error msg w = w\<lparr>log := log w @ [msg]\<rparr>"

text \<open>
  The body of \<^verbatim>\<open>get_or_node_details\<close> after the call of \<^verbatim>\<open>ask_emacs\<close>.  The link
  rewriter \<^verbatim>\<open>utils.rewrite_links\<close> is a parameter.  The \<^verbatim>\<open>else\<close> that logs and
  raises belongs to the outer \<^verbatim>\<open>if\<close>, the one on the title line; when the title line
  matches and the file line does not, control leaves the outer \<^verbatim>\<open>if\<close> and reaches
  the end of the function, which returns \<^verbatim>\<open>None\<close>: the result \<open>Inr None\<close>.
\<close>

definition get_or_node_details_parse ::
    "(str \<Rightarrow> posix_path \<Rightarrow> str) \<Rightarrow> str \<Rightarrow> world \<Rightarrow> (error + pydict option) \<times> world" where
  "get_or_node_details_parse rewrite_links output w =
     (let lines = str_split newline output;
          output_dict = Map.empty
      in case getitem lines 0 of
           Inl e \<Rightarrow> (Inl e, w)
         | Inr l0 \<Rightarrow>
            (case re_match ''title:'' l0 of
               Some mo_t \<Rightarrow>
                 (let output_dict = output_dict(''title'' \<mapsto> mo_t)
                  in case getitem lines 1 of
                       Inl e \<Rightarrow> (Inl e, w)
                     | Inr l1 \<Rightarrow>
                        (case re_match ''file:'' l1 of
                           Some fn \<Rightarrow>
                             (let output_dict = output_dict(''file'' \<mapsto> fn);
                                  html = str_join [newline] (drop 2 lines);
                                  output_dict = output_dict(''html'' \<mapsto> rewrite_links html (parent (Path fn)))
                              in (Inr (Some output_dict), w))
                         | None \<Rightarrow> (Inr None, w)))
             | None \<Rightarrow>
                 (Inl (HTTPException 404 ''No node found''),
                  logging_error (''Unable to parse output from emacsclient: '' @ output) w)))"

text \<open>
  \<^verbatim>\<open>ELISP_GND.format(node_id=or_node_id)\<close> cannot fail on this template, as
  \<open>format_ELISP_GND\<close> below shows; the first two branches are there for the type.
\<close>

definition get_or_node_details ::
    "os_env \<Rightarrow> (str \<Rightarrow> posix_path \<Rightarrow> str) \<Rightarrow> str \<Rightarrow> world \<Rightarrow> ((error + pydict option) \<times> world) option" where
  "get_or_node_details os rewrite_links or_node_id w =
     (case str_format ELISP_GND [''node_id'' \<mapsto> or_node_id] of
        Inl Unmodelled \<Rightarrow> None
      | Inl (Raises e) \<Rightarrow> Some (Inl e, w)
      | Inr elisp \<Rightarrow>
         (case ask_emacs os elisp False w of
            None \<Rightarrow> None
          | Some (Inl e, w') \<Rightarrow> Some (Inl e, w')
          | Some (Inr output, w') \<Rightarrow> Some (get_or_node_details_parse rewrite_links output w')))"

text \<open>
  A stand-in for the link rewriter, for running the model: it puts the base directory
  that it was given in front of the HTML.
\<close>

definition rewrite_links_stub :: "str \<Rightarrow> posix_path \<Rightarrow> str" where
  "rewrite_links_stub html base = ''[base='' @ path_str base @ '']'' @ html"

section \<open>Lines, joins and matches\<close>

lemma str_split_not_Nil: "str_split sep s \<noteq> []"
  by (induction s) (auto split: list.splits)

lemma str_split_no_sep: "l \<in> set (str_split sep s) \<Longrightarrow> sep \<notin> set l"
proof (induction s arbitrary: l)
  case Nil
  then show ?case by simp
next
  case (Cons c cs)
  show ?case
  proof (cases "c = sep")
    case True
    with Cons show ?thesis by auto
  next
    case False
    obtain x xs where sp: "str_split sep cs = x # xs"
      using str_split_not_Nil [of sep cs] by (cases "str_split sep cs") auto
    with False Cons.prems have "l = c # x \<or> l \<in> set xs" by auto
    with False sp Cons.IH show ?thesis by auto
  qed
qed

lemma str_join_Cons: "ys \<noteq> [] \<Longrightarrow> str_join sep (x # ys) = x @ sep @ str_join sep ys"
  by (cases ys) auto

lemma str_join_split: "str_join [sep] (str_split sep s) = s"
proof (induction s)
  case Nil
  then show ?case by simp
next
  case (Cons c cs)
  obtain x xs where sp: "str_split sep cs = x # xs"
    using str_split_not_Nil [of sep cs] by (cases "str_split sep cs") auto
  show ?case
  proof (cases "c = sep")
    case True
    with Cons sp show ?thesis by simp
  next
    case False
    with Cons sp show ?thesis by (cases xs) auto
  qed
qed

lemma str_split_no_sep_eq: "sep \<notin> set a \<Longrightarrow> str_split sep a = [a]"
  by (induction a) auto

lemma str_split_append: "sep \<notin> set a \<Longrightarrow> str_split sep (a @ sep # r) = a # str_split sep r"
  by (induction a) auto

lemma nth_split_no_newline:
  "k < length (str_split newline output) \<Longrightarrow> newline \<notin> set (str_split newline output ! k)"
  by (rule str_split_no_sep [OF nth_mem])

lemma re_match_Some_iff:
  "re_match lit s = Some g \<longleftrightarrow>
     take (length lit) s = lit \<and> g = takeWhile (\<lambda>c. c \<noteq> newline) (drop (length lit) s) \<and> g \<noteq> []"
  by (auto simp: re_match_def Let_def)

lemma re_match_line:
  assumes "newline \<notin> set s"
  shows "re_match lit s = Some g \<longleftrightarrow> s = lit @ g \<and> g \<noteq> []"
proof -
  have tw: "takeWhile (\<lambda>c. c \<noteq> newline) (drop (length lit) s) = drop (length lit) s"
    using assms by (auto simp: takeWhile_eq_all_conv dest: in_set_dropD)
  show ?thesis
  proof
    assume "re_match lit s = Some g"
    then have "take (length lit) s = lit \<and> g = drop (length lit) s \<and> g \<noteq> []"
      unfolding re_match_Some_iff tw .
    then have a: "take (length lit) s = lit" and b: "g = drop (length lit) s" and c: "g \<noteq> []"
      by blast+
    have "s = take (length lit) s @ drop (length lit) s" by simp
    with a b c show "s = lit @ g \<and> g \<noteq> []" by simp
  next
    assume "s = lit @ g \<and> g \<noteq> []"
    then have s: "s = lit @ g" and g: "g \<noteq> []" by blast+
    from s have "take (length lit) s = lit" and d: "drop (length lit) s = g" by simp_all
    with g show "re_match lit s = Some g" unfolding re_match_Some_iff tw by simp
  qed
qed

lemma re_match_bare: "re_match lit lit = None"
  by (simp add: re_match_def)

lemma re_match_nonempty: "re_match lit s = Some g \<Longrightarrow> g \<noteq> []"
  unfolding re_match_Some_iff by blast

section \<open>The editor bridge\<close>

lemma apply_writes_keeps: "fs n \<noteq> None \<Longrightarrow> apply_writes ws fs n \<noteq> None"
  by (induction ws arbitrary: fs) auto

lemma ask_emacs_locked: "mutex_locked w \<Longrightarrow> ask_emacs os elisp cf w = None"
  by (simp add: ask_emacs_def Let_def)

lemma ask_emacs_completed:
  assumes "\<not> mutex_locked w"
    and "subprocess_run os (emacsclient_cmd elisp cf (mktemp os w)) ((files w)(mktemp os w \<mapsto> []))
           = (Inr cp, writes)"
  shows "ask_emacs os elisp cf w =
           Some (if stderr cp \<noteq> [] then Inl (HTTPException 404 (stderr cp))
                 else decode_utf8 (case apply_writes writes ((files w)(mktemp os w \<mapsto> [])) (mktemp os w) of
                                     Some b \<Rightarrow> b | None \<Rightarrow> []),
                 w\<lparr>files := (apply_writes writes ((files w)(mktemp os w \<mapsto> [])))(mktemp os w := None)\<rparr>)"
  using assms by (simp add: ask_emacs_def Let_def read_file_def)

lemma ask_emacs_raised:
  assumes "\<not> mutex_locked w"
    and "subprocess_run os (emacsclient_cmd elisp cf (mktemp os w)) ((files w)(mktemp os w \<mapsto> []))
           = (Inl msg, writes)"
  shows "ask_emacs os elisp cf w =
           Some (Inl (OSError msg),
                 w\<lparr>files := (apply_writes writes ((files w)(mktemp os w \<mapsto> [])))(mktemp os w := None)\<rparr>)"
  using assms by (simp add: ask_emacs_def Let_def)

lemma ask_emacs_cleans_up:
  assumes "ask_emacs os elisp cf w = Some (r, w')"
  shows "files w' (mktemp os w) = None \<and> \<not> mutex_locked w' \<and> log w' = log w"
proof -
  have unl: "\<not> mutex_locked w"
    using assms ask_emacs_locked [of w os elisp cf] by auto
  obtain ret writes where run:
    "subprocess_run os (emacsclient_cmd elisp cf (mktemp os w)) ((files w)(mktemp os w \<mapsto> []))
       = (ret, writes)"
    by (cases "subprocess_run os (emacsclient_cmd elisp cf (mktemp os w)) ((files w)(mktemp os w \<mapsto> []))")
  show ?thesis
  proof (cases ret)
    case (Inl msg)
    with assms ask_emacs_raised [OF unl, of os elisp cf msg writes] run unl show ?thesis by auto
  next
    case (Inr cp)
    with assms ask_emacs_completed [OF unl, of os elisp cf cp writes] run unl show ?thesis by auto
  qed
qed

lemma stub_ask_emacs:
  "ask_emacs (emacs_stub code [] content) elisp cf world0 = Some (decode_utf8 content, world0)"
  by (simp add: ask_emacs_def emacs_stub_def world0_def Let_def read_file_def)

text \<open>
  Claim C3.  When the lock is free, the subprocess completes and its standard error is
  empty, \<^verbatim>\<open>ask_emacs\<close> returns: its value is the content that the temporary file holds
  after the subprocess, decoded as UTF-8 (the string itself when the bytes are well
  formed, \<^verbatim>\<open>UnicodeDecodeError\<close> otherwise).  And however the call ends, with a value
  or with an exception, the temporary file is gone afterwards.
\<close>

theorem ask_emacs_returns_file_content:
  "(\<not> mutex_locked w \<and>
    subprocess_run os (emacsclient_cmd elisp cf (mktemp os w)) ((files w)(mktemp os w \<mapsto> []))
      = (Inr cp, writes) \<and>
    stderr cp = []
    \<longrightarrow> (\<exists>content w'.
           apply_writes writes ((files w)(mktemp os w \<mapsto> [])) (mktemp os w) = Some content \<and>
           ask_emacs os elisp cf w
             = Some (if utf8_valid content then Inr content else Inl UnicodeDecodeError, w') \<and>
           files w' (mktemp os w) = None))
   \<and> (\<forall>r w'. ask_emacs os elisp cf w = Some (r, w') \<longrightarrow> files w' (mktemp os w) = None)"
proof (intro conjI impI allI)
  assume a: "\<not> mutex_locked w \<and>
    subprocess_run os (emacsclient_cmd elisp cf (mktemp os w)) ((files w)(mktemp os w \<mapsto> []))
      = (Inr cp, writes) \<and> stderr cp = []"
  let ?n = "mktemp os w"
  let ?fs = "(files w)(?n \<mapsto> [])"
  have "apply_writes writes ?fs ?n \<noteq> None"
    by (rule apply_writes_keeps) simp
  then obtain content where c: "apply_writes writes ?fs ?n = Some content" by auto
  from a have "ask_emacs os elisp cf w =
      Some (decode_utf8 content, w\<lparr>files := (apply_writes writes ?fs)(?n := None)\<rparr>)"
    using ask_emacs_completed [of w os elisp cf cp writes] c by simp
  with c show "\<exists>content w'.
           apply_writes writes ?fs ?n = Some content \<and>
           ask_emacs os elisp cf w
             = Some (if utf8_valid content then Inr content else Inl UnicodeDecodeError, w') \<and>
           files w' ?n = None"
    by (simp add: decode_utf8_def)
next
  fix r w'
  assume "ask_emacs os elisp cf w = Some (r, w')"
  then show "files w' (mktemp os w) = None"
    using ask_emacs_cleans_up by blast
qed

text \<open>
  An instance: the subprocess exits with code 7 and an empty standard error after writing
  \<^verbatim>\<open>title:T\<close>; the call returns that string and the file is removed.
\<close>

theorem ask_emacs_returns_file_content_witness:
  "\<not> mutex_locked world0 \<and>
   stderr \<lparr>returncode = 7, stdout = [], stderr = []\<rparr> = [] \<and>
   (\<exists>w'. ask_emacs (emacs_stub 7 [] ''title:T'') ''(point)'' False world0 = Some (Inr ''title:T'', w') \<and>
         files w' ''/tmp/tmpq3x9'' = None)"
proof -
  let ?os = "emacs_stub 7 [] ''title:T''"
  have h: "\<not> mutex_locked world0 \<and>
    subprocess_run ?os (emacsclient_cmd ''(point)'' False (mktemp ?os world0))
        ((files world0)(mktemp ?os world0 \<mapsto> []))
      = (Inr \<lparr>returncode = 7, stdout = [], stderr = []\<rparr>, [(''/tmp/tmpq3x9'', ''title:T'')]) \<and>
    stderr \<lparr>returncode = 7, stdout = [], stderr = []\<rparr> = []"
    by (simp add: emacs_stub_def world0_def)
  from ask_emacs_returns_file_content [THEN conjunct1, rule_format, OF h]
  obtain content w' where
    c: "apply_writes [(''/tmp/tmpq3x9'', ''title:T'')] ((files world0)(mktemp ?os world0 \<mapsto> []))
          (mktemp ?os world0) = Some content"
    and r: "ask_emacs ?os ''(point)'' False world0
          = Some (if utf8_valid content then Inr content else Inl UnicodeDecodeError, w')"
    and f: "files w' (mktemp ?os world0) = None"
    by blast
  from c have "content = ''title:T''" by (simp add: emacs_stub_def)
  with r f show ?thesis by (auto simp: emacs_stub_def world0_def)
qed

text \<open>
  Claim C4.  When the subprocess completes, \<^verbatim>\<open>ask_emacs\<close> fails with an
  \<^verbatim>\<open>HTTPException\<close> exactly when the captured standard error is not empty; the
  exception then has status 404 and the standard error as its detail, the temporary file
  is removed and the lock is released.  When \<^verbatim>\<open>subprocess.run\<close> itself raises there
  is no captured standard error and that exception propagates.  The exit code plays no
  part: two systems whose subprocesses differ in their exit codes only give the same
  result.
\<close>

theorem ask_emacs_fails_iff_stderr:
  "(\<not> mutex_locked w \<and>
    subprocess_run os (emacsclient_cmd elisp cf (mktemp os w)) ((files w)(mktemp os w \<mapsto> []))
      = (Inr cp, writes)
    \<longrightarrow> (\<exists>r w'. ask_emacs os elisp cf w = Some (r, w') \<and>
          ((\<exists>status detail. r = Inl (HTTPException status detail)) \<longleftrightarrow> stderr cp \<noteq> []) \<and>
          (stderr cp \<noteq> [] \<longrightarrow> r = Inl (HTTPException 404 (stderr cp))) \<and>
          files w' (mktemp os w) = None \<and> \<not> mutex_locked w'))
   \<and> (\<not> mutex_locked w \<and>
    subprocess_run os (emacsclient_cmd elisp cf (mktemp os w)) ((files w)(mktemp os w \<mapsto> []))
      = (Inl msg, writes)
    \<longrightarrow> (\<exists>w'. ask_emacs os elisp cf w = Some (Inl (OSError msg), w')))
   \<and> (mktemp os' = mktemp os \<and>
       (\<forall>cmd fs. map_prod (map_sum id (\<lambda>c. c\<lparr>returncode := 0\<rparr>)) id (subprocess_run os' cmd fs)
                = map_prod (map_sum id (\<lambda>c. c\<lparr>returncode := 0\<rparr>)) id (subprocess_run os cmd fs))
       \<longrightarrow> ask_emacs os' elisp cf w = ask_emacs os elisp cf w)"
proof (intro conjI impI)
  assume a: "\<not> mutex_locked w \<and>
    subprocess_run os (emacsclient_cmd elisp cf (mktemp os w)) ((files w)(mktemp os w \<mapsto> []))
      = (Inr cp, writes)"
  then have "ask_emacs os elisp cf w \<noteq> None"
    using ask_emacs_completed [of w os elisp cf cp writes] by simp
  then obtain r w' where rw: "ask_emacs os elisp cf w = Some (r, w')" by auto
  have r: "r = (if stderr cp \<noteq> [] then Inl (HTTPException 404 (stderr cp))
                else decode_utf8 (case apply_writes writes ((files w)(mktemp os w \<mapsto> [])) (mktemp os w) of
                                     Some b \<Rightarrow> b | None \<Rightarrow> []))"
    using a rw ask_emacs_completed [of w os elisp cf cp writes] by simp
  have "(\<exists>status detail. r = Inl (HTTPException status detail)) \<longleftrightarrow> stderr cp \<noteq> []"
    using r by (auto simp: decode_utf8_def)
  moreover have "stderr cp \<noteq> [] \<longrightarrow> r = Inl (HTTPException 404 (stderr cp))"
    using r by simp
  moreover have "files w' (mktemp os w) = None \<and> \<not> mutex_locked w'"
    using ask_emacs_cleans_up [OF rw] by simp
  ultimately show "\<exists>r w'. ask_emacs os elisp cf w = Some (r, w') \<and>
          ((\<exists>status detail. r = Inl (HTTPException status detail)) \<longleftrightarrow> stderr cp \<noteq> []) \<and>
          (stderr cp \<noteq> [] \<longrightarrow> r = Inl (HTTPException 404 (stderr cp))) \<and>
          files w' (mktemp os w) = None \<and> \<not> mutex_locked w'"
    using rw by blast
next
  assume "\<not> mutex_locked w \<and>
    subprocess_run os (emacsclient_cmd elisp cf (mktemp os w)) ((files w)(mktemp os w \<mapsto> []))
      = (Inl msg, writes)"
  then show "\<exists>w'. ask_emacs os elisp cf w = Some (Inl (OSError msg), w')"
    using ask_emacs_raised [of w os elisp cf msg writes] by simp
next
  assume a: "mktemp os' = mktemp os \<and>
       (\<forall>cmd fs. map_prod (map_sum id (\<lambda>c. c\<lparr>returncode := 0\<rparr>)) id (subprocess_run os' cmd fs)
                = map_prod (map_sum id (\<lambda>c. c\<lparr>returncode := 0\<rparr>)) id (subprocess_run os cmd fs))"
  let ?cmd = "emacsclient_cmd elisp cf (mktemp os w)"
  let ?fs = "(files w)(mktemp os w \<mapsto> [])"
  obtain ret writes where run: "subprocess_run os ?cmd ?fs = (ret, writes)"
    by (cases "subprocess_run os ?cmd ?fs")
  obtain ret' writes' where run': "subprocess_run os' ?cmd ?fs = (ret', writes')"
    by (cases "subprocess_run os' ?cmd ?fs")
  from a run run' have w: "writes' = writes"
    and rr: "map_sum id (\<lambda>c. c\<lparr>returncode := 0\<rparr>) ret' = map_sum id (\<lambda>c. c\<lparr>returncode := 0\<rparr>) ret"
    by (metis map_prod_simp id_apply prod.inject)+
  have same: "(case ret' of Inl m \<Rightarrow> Inl m | Inr c \<Rightarrow> Inr (stderr c))
            = (case ret of Inl m \<Rightarrow> Inl m | Inr c \<Rightarrow> Inr (stderr c))"
  proof (cases ret; cases ret')
    fix c c' assume "ret = Inr c" "ret' = Inr c'"
    with rr have "c'\<lparr>returncode := 0\<rparr> = c\<lparr>returncode := 0\<rparr>" by simp
    then have "stderr (c'\<lparr>returncode := 0\<rparr>) = stderr (c\<lparr>returncode := 0\<rparr>)" by simp
    with \<open>ret = Inr c\<close> \<open>ret' = Inr c'\<close> show ?thesis by simp
  qed (use rr in auto)
  show "ask_emacs os' elisp cf w = ask_emacs os elisp cf w"
  proof (cases "mutex_locked w")
    case True
    then show ?thesis by (simp add: ask_emacs_locked)
  next
    case False
    show ?thesis
    proof (cases ret; cases ret')
      fix m m' assume "ret = Inl m" "ret' = Inl m'"
      with same False run run' w a show ?thesis
        using ask_emacs_raised [of w os elisp cf m writes] ask_emacs_raised [of w os' elisp cf m' writes]
        by simp
    next
      fix c c' assume "ret = Inr c" "ret' = Inr c'"
      with same False run run' w a show ?thesis
        using ask_emacs_completed [of w os elisp cf c writes] ask_emacs_completed [of w os' elisp cf c' writes]
        by simp
    qed (use same in auto)
  qed
qed

text \<open>
  Instances: exit code 0 with a message on standard error fails with that message; a
  system without the executable raises \<^verbatim>\<open>OSError\<close>; exit codes 3 and 0 give the same
  result.
\<close>

theorem ask_emacs_fails_iff_stderr_witness:
  "(\<exists>w'. ask_emacs (emacs_stub 0 ''*ERROR*: boom'' ''partial'') ''(point)'' False world0
            = Some (Inl (HTTPException 404 ''*ERROR*: boom''), w') \<and>
         files w' ''/tmp/tmpq3x9'' = None \<and> \<not> mutex_locked w')
   \<and> (\<exists>w'. ask_emacs emacs_missing ''(point)'' False world0
            = Some (Inl (OSError ''No such file or directory''), w'))
   \<and> ask_emacs (emacs_stub 3 [] ''id:x'') ''(point)'' True world0
       = ask_emacs (emacs_stub 0 [] ''id:x'') ''(point)'' True world0"
proof (intro conjI)
  let ?os = "emacs_stub 0 ''*ERROR*: boom'' ''partial''"
  have h: "\<not> mutex_locked world0 \<and>
    subprocess_run ?os (emacsclient_cmd ''(point)'' False (mktemp ?os world0))
        ((files world0)(mktemp ?os world0 \<mapsto> []))
      = (Inr \<lparr>returncode = 0, stdout = [], stderr = ''*ERROR*: boom''\<rparr>, [(''/tmp/tmpq3x9'', ''partial'')])"
    by (simp add: emacs_stub_def world0_def)
  from ask_emacs_fails_iff_stderr [THEN conjunct1, rule_format, OF h]
  show "\<exists>w'. ask_emacs ?os ''(point)'' False world0
            = Some (Inl (HTTPException 404 ''*ERROR*: boom''), w') \<and>
         files w' ''/tmp/tmpq3x9'' = None \<and> \<not> mutex_locked w'"
    by (auto simp: emacs_stub_def)
next
  have h: "\<not> mutex_locked world0 \<and>
    subprocess_run emacs_missing (emacsclient_cmd ''(point)'' False (mktemp emacs_missing world0))
        ((files world0)(mktemp emacs_missing world0 \<mapsto> []))
      = (Inl ''No such file or directory'', [])"
    by (simp add: emacs_missing_def world0_def)
  from ask_emacs_fails_iff_stderr [THEN conjunct2, THEN conjunct1, rule_format, OF h]
  show "\<exists>w'. ask_emacs emacs_missing ''(point)'' False world0
            = Some (Inl (OSError ''No such file or directory''), w')" .
next
  have h: "mktemp (emacs_stub 3 [] ''id:x'') = mktemp (emacs_stub 0 [] ''id:x'') \<and>
       (\<forall>cmd fs. map_prod (map_sum id (\<lambda>c. c\<lparr>returncode := 0\<rparr>)) id
                    (subprocess_run (emacs_stub 3 [] ''id:x'') cmd fs)
                = map_prod (map_sum id (\<lambda>c. c\<lparr>returncode := 0\<rparr>)) id
                    (subprocess_run (emacs_stub 0 [] ''id:x'') cmd fs))"
    by (simp add: emacs_stub_def)
  from ask_emacs_fails_iff_stderr [THEN conjunct2, THEN conjunct2, rule_format, OF h]
  show "ask_emacs (emacs_stub 3 [] ''id:x'') ''(point)'' True world0
       = ask_emacs (emacs_stub 0 [] ''id:x'') ''(point)'' True world0" .
qed

section \<open>The node finder\<close>

lemma select_node_via_output:
  "ask_emacs os ELISP_SN True w = Some (Inr output, w') \<Longrightarrow>
   select_node os w = Some (select_node_parse output, w')"
  by (simp add: select_node_def)

lemma select_node_dict_three:
  assumes "3 \<le> length lines"
  shows "select_node_dict lines =
    (case re_match ''id:'' (lines ! 0) of
       None \<Rightarrow> Inr None
     | Some i \<Rightarrow>
        (case re_match ''title:'' (lines ! 1) of
           None \<Rightarrow> Inr None
         | Some t \<Rightarrow>
            (case re_match ''file:'' (lines ! 2) of
               None \<Rightarrow> Inr None
             | Some f \<Rightarrow> Inr (Some [''id'' \<mapsto> i, ''title'' \<mapsto> t, ''file'' \<mapsto> f]))))"
proof -
  from assms have "0 < length lines" "1 < length lines" "2 < length lines" by linarith+
  then have "getitem lines 0 = Inr (lines ! 0)" "getitem lines 1 = Inr (lines ! 1)"
    "getitem lines 2 = Inr (lines ! 2)"
    by (simp_all add: getitem_def)
  then show ?thesis by (simp add: select_node_dict_def split: option.splits)
qed

lemma select_node_parse_success:
  assumes "select_node_parse output = Inr d"
  shows "\<exists>i t f. d = [''id'' \<mapsto> i, ''title'' \<mapsto> t, ''file'' \<mapsto> f] \<and> i \<noteq> [] \<and> t \<noteq> [] \<and> f \<noteq> []"
  using assms
  by (auto simp: select_node_parse_def select_node_dict_def Let_def
           split: sum.splits option.splits dest: re_match_nonempty)

lemma select_node_success:
  assumes "select_node os w = Some (Inr d, w')"
  shows "\<exists>output. select_node_parse output = Inr d"
  using assms
  by (auto simp: select_node_def split: option.splits sum.splits prod.splits)

lemma select_node_parse_bare:
  assumes "str_split newline output ! 0 = ''id:''
     \<or> (1 < length (str_split newline output) \<and> str_split newline output ! 1 = ''title:'')
     \<or> (2 < length (str_split newline output) \<and> str_split newline output ! 2 = ''file:'')"
  shows "select_node_parse output = Inl (HTTPException 404 ''No node selected'')"
proof -
  have b: "re_match ''id:'' ''id:'' = None" "re_match ''title:'' ''title:'' = None"
    "re_match ''file:'' ''file:'' = None"
    by (rule re_match_bare)+
  have "0 < length (str_split newline output)"
    using str_split_not_Nil [of newline "output"] by simp
  then have g0: "getitem (str_split newline output) 0 = Inr (str_split newline output ! 0)"
    by (simp add: getitem_def)
  from assms have "select_node_dict (str_split newline output) = Inr None"
  proof (elim disjE conjE)
    assume "str_split newline output ! 0 = ''id:''"
    with g0 b show ?thesis by (simp add: select_node_dict_def)
  next
    assume l: "1 < length (str_split newline output)" and e: "str_split newline output ! 1 = ''title:''"
    then have "getitem (str_split newline output) 1 = Inr ''title:''"
      by (simp add: getitem_def)
    with g0 b show ?thesis by (simp add: select_node_dict_def split: option.splits)
  next
    assume l: "2 < length (str_split newline output)" and e: "str_split newline output ! 2 = ''file:''"
    then have "getitem (str_split newline output) 2 = Inr ''file:''"
      "getitem (str_split newline output) 1 = Inr (str_split newline output ! 1)"
      by (simp_all add: getitem_def)
    with g0 b show ?thesis by (simp add: select_node_dict_def split: option.splits)
  qed
  then show ?thesis by (simp add: select_node_parse_def)
qed

lemma select_node_not_found_three_lines:
  assumes "ask_emacs os ELISP_SN True w = Some (Inr output, w')"
    and "3 \<le> length (str_split newline output)"
    and "re_match ''id:'' (str_split newline output ! 0) = None
         \<or> re_match ''title:'' (str_split newline output ! 1) = None
         \<or> re_match ''file:'' (str_split newline output ! 2) = None"
  shows "select_node os w = Some (Inl (HTTPException 404 ''No node selected''), w')"
proof -
  from assms(2,3) have "select_node_dict (str_split newline output) = Inr None"
    by (auto simp: select_node_dict_three split: option.splits)
  then have "select_node_parse output = Inl (HTTPException 404 ''No node selected'')"
    by (simp add: select_node_parse_def)
  with assms(1) show ?thesis by (simp add: select_node_via_output)
qed

lemma select_node_oops:
  "select_node (emacs_stub 0 [] ''oops\<newline>title:t\<newline>file:f'') world0
     = Some (Inl (HTTPException 404 ''No node selected''), world0)"
proof -
  have "utf8_valid ''oops\<newline>title:t\<newline>file:f''" by simp
  then have "ask_emacs (emacs_stub 0 [] ''oops\<newline>title:t\<newline>file:f'') ELISP_SN True world0
      = Some (Inr ''oops\<newline>title:t\<newline>file:f'', world0)"
    by (simp only: stub_ask_emacs decode_utf8_def if_True)
  moreover have "select_node_parse ''oops\<newline>title:t\<newline>file:f'' = Inl (HTTPException 404 ''No node selected'')"
    by (simp add: select_node_parse_def select_node_dict_def getitem_def re_match_def newline_def)
  ultimately show ?thesis by (simp only: select_node_via_output)
qed

text \<open>
  Claim C6.  When the output has lines 0, 1 and 2 and the three patterns match them in
  this order, \<^verbatim>\<open>select_node\<close> returns the dictionary of the three captured groups, and
  each group is the whole rest of its line after the prefix.  For the output
  \<^verbatim>\<open>id:abc\<close>, \<^verbatim>\<open>title:My Note\<close>, \<^verbatim>\<open>file:/x/y.org\<close> the result is
  \<^verbatim>\<open>{id: "abc", title: "My Note", file: "/x/y.org"}\<close>.
\<close>

theorem select_node_returns_fields:
  "(ask_emacs os ELISP_SN True w = Some (Inr output, w') \<and>
    3 \<le> length (str_split newline output) \<and>
    re_match ''id:'' (str_split newline output ! 0) = Some i \<and>
    re_match ''title:'' (str_split newline output ! 1) = Some t \<and>
    re_match ''file:'' (str_split newline output ! 2) = Some f
    \<longrightarrow> select_node os w = Some (Inr [''id'' \<mapsto> i, ''title'' \<mapsto> t, ''file'' \<mapsto> f], w') \<and>
         str_split newline output ! 0 = ''id:'' @ i \<and>
         str_split newline output ! 1 = ''title:'' @ t \<and>
         str_split newline output ! 2 = ''file:'' @ f)
   \<and> select_node (emacs_stub 0 [] ''id:abc\<newline>title:My Note\<newline>file:/x/y.org'') world0
       = Some (Inr [''id'' \<mapsto> ''abc'', ''title'' \<mapsto> ''My Note'', ''file'' \<mapsto> ''/x/y.org''], world0)"
proof (intro conjI impI)
  assume a: "ask_emacs os ELISP_SN True w = Some (Inr output, w') \<and>
    3 \<le> length (str_split newline output) \<and>
    re_match ''id:'' (str_split newline output ! 0) = Some i \<and>
    re_match ''title:'' (str_split newline output ! 1) = Some t \<and>
    re_match ''file:'' (str_split newline output ! 2) = Some f"
  then have "select_node_dict (str_split newline output)
      = Inr (Some [''id'' \<mapsto> i, ''title'' \<mapsto> t, ''file'' \<mapsto> f])"
    by (simp add: select_node_dict_three)
  then have "select_node_parse output = Inr [''id'' \<mapsto> i, ''title'' \<mapsto> t, ''file'' \<mapsto> f]"
    by (simp add: select_node_parse_def)
  with a show "select_node os w = Some (Inr [''id'' \<mapsto> i, ''title'' \<mapsto> t, ''file'' \<mapsto> f], w')"
    by (simp add: select_node_via_output)
  from a have n0: "newline \<notin> set (str_split newline output ! 0)"
    and n1: "newline \<notin> set (str_split newline output ! 1)"
    and n2: "newline \<notin> set (str_split newline output ! 2)"
    by (auto intro!: nth_split_no_newline)
  from a n0 show "str_split newline output ! 0 = ''id:'' @ i"
    using re_match_line [of "str_split newline output ! 0" "''id:''" i] by blast
  from a n1 show "str_split newline output ! 1 = ''title:'' @ t"
    using re_match_line [of "str_split newline output ! 1" "''title:''" t] by blast
  from a n2 show "str_split newline output ! 2 = ''file:'' @ f"
    using re_match_line [of "str_split newline output ! 2" "''file:''" f] by blast
next
  have "utf8_valid ''id:abc\<newline>title:My Note\<newline>file:/x/y.org''" by simp
  then have "ask_emacs (emacs_stub 0 [] ''id:abc\<newline>title:My Note\<newline>file:/x/y.org'') ELISP_SN True world0
     = Some (Inr ''id:abc\<newline>title:My Note\<newline>file:/x/y.org'', world0)"
    by (simp only: stub_ask_emacs decode_utf8_def if_True)
  moreover have "select_node_parse ''id:abc\<newline>title:My Note\<newline>file:/x/y.org''
     = Inr [''id'' \<mapsto> ''abc'', ''title'' \<mapsto> ''My Note'', ''file'' \<mapsto> ''/x/y.org'']"
    by (simp add: select_node_parse_def select_node_dict_def getitem_def re_match_def newline_def)
  ultimately show "select_node (emacs_stub 0 [] ''id:abc\<newline>title:My Note\<newline>file:/x/y.org'') world0
       = Some (Inr [''id'' \<mapsto> ''abc'', ''title'' \<mapsto> ''My Note'', ''file'' \<mapsto> ''/x/y.org''], world0)"
    by (simp only: select_node_via_output)
qed

text \<open>An instance with a fourth line, which is ignored.\<close>

theorem select_node_returns_fields_witness:
  "select_node (emacs_stub 0 [] ''id:1f\<newline>title:a b\<newline>file:/n/f.org\<newline>more'') world0
     = Some (Inr [''id'' \<mapsto> ''1f'', ''title'' \<mapsto> ''a b'', ''file'' \<mapsto> ''/n/f.org''], world0)"
proof -
  let ?out = "''id:1f\<newline>title:a b\<newline>file:/n/f.org\<newline>more''"
  have sp: "str_split newline ?out = [''id:1f'', ''title:a b'', ''file:/n/f.org'', ''more'']"
    by (simp add: newline_def)
  have "utf8_valid ?out" by simp
  then have ask: "ask_emacs (emacs_stub 0 [] ?out) ELISP_SN True world0 = Some (Inr ?out, world0)"
    by (simp only: stub_ask_emacs decode_utf8_def if_True)
  have h: "ask_emacs (emacs_stub 0 [] ?out) ELISP_SN True world0 = Some (Inr ?out, world0) \<and>
    3 \<le> length (str_split newline ?out) \<and>
    re_match ''id:'' (str_split newline ?out ! 0) = Some ''1f'' \<and>
    re_match ''title:'' (str_split newline ?out ! 1) = Some ''a b'' \<and>
    re_match ''file:'' (str_split newline ?out ! 2) = Some ''/n/f.org''"
    unfolding sp using ask by (simp add: re_match_def newline_def)
  from select_node_returns_fields [THEN conjunct1, rule_format, OF h]
  show ?thesis by blast
qed

text \<open>
  Claim C2 says that \<^verbatim>\<open>select_node\<close> fails with the 404 error whenever one of the three
  lines does not match, outputs of fewer than three lines included.  The code reads
  \<^verbatim>\<open>lines[1]\<close> and \<^verbatim>\<open>lines[2]\<close> without a check of the length: when the lines that
  are there match and the next one is missing, the call fails with \<^verbatim>\<open>IndexError\<close>
  instead.
\<close>

theorem select_node_short_output_IndexError:
  "select_node (emacs_stub 0 [] ''id:abc'') world0 = Some (Inl IndexError, world0)
   \<and> select_node (emacs_stub 0 [] ''id:abc\<newline>title:t'') world0 = Some (Inl IndexError, world0)"
proof -
  have "utf8_valid ''id:abc''" "utf8_valid ''id:abc\<newline>title:t''" by simp_all
  then have "ask_emacs (emacs_stub 0 [] ''id:abc'') ELISP_SN True world0 = Some (Inr ''id:abc'', world0)"
    "ask_emacs (emacs_stub 0 [] ''id:abc\<newline>title:t'') ELISP_SN True world0
       = Some (Inr ''id:abc\<newline>title:t'', world0)"
    by (simp_all only: stub_ask_emacs decode_utf8_def if_True)
  moreover have "select_node_parse ''id:abc'' = Inl IndexError"
    "select_node_parse ''id:abc\<newline>title:t'' = Inl IndexError"
    by (simp_all add: select_node_parse_def select_node_dict_def getitem_def re_match_def newline_def)
  ultimately show ?thesis by (simp only: select_node_via_output)
qed

section \<open>The node detail fetcher\<close>

lemma format_ELISP_GND:
  \<open>str_format ELISP_GND [''node_id'' \<mapsto> n] =
     Inr (''(let ((fnpos (org-roam-id-find "'' @ n @ ''")))\<newline>'' @
          ''  (when fnpos\<newline>'' @
          ''    (with-temp-buffer\<newline>'' @
          ''      (insert-file-contents (car fnpos))\<newline>'' @
          ''      (goto-char (cdr fnpos))\<newline>'' @
          ''      (let* ((node (org-roam-node-at-point))\<newline>'' @
          ''             (html (org-export-as 'html (org-at-heading-p) nil t)))\<newline>'' @
          ''        (format "title:%s\<newline>'' @
          ''file:%s\<newline>'' @
          ''%s" (org-roam-node-title node) (org-roam-node-file node) html)\<newline>'' @
          ''        ))))\<newline>'')\<close>
  by (simp add: str_format_def ELISP_GND_def lookup_field_def emit_def)

lemma get_or_node_details_via_output:
  "str_format ELISP_GND [''node_id'' \<mapsto> n] = Inr elisp \<Longrightarrow>
   ask_emacs os elisp False w = Some (Inr output, w') \<Longrightarrow>
   get_or_node_details os rewrite_links n w = Some (get_or_node_details_parse rewrite_links output w')"
  by (simp add: get_or_node_details_def)

lemma get_or_node_details_parse_two:
  assumes "2 \<le> length (str_split newline output)"
  shows "get_or_node_details_parse rl output w =
    (case re_match ''title:'' (str_split newline output ! 0) of
       None \<Rightarrow> (Inl (HTTPException 404 ''No node found''),
                logging_error (''Unable to parse output from emacsclient: '' @ output) w)
     | Some t \<Rightarrow>
        (case re_match ''file:'' (str_split newline output ! 1) of
           None \<Rightarrow> (Inr None, w)
         | Some f \<Rightarrow>
            (Inr (Some [''title'' \<mapsto> t, ''file'' \<mapsto> f,
                        ''html'' \<mapsto> rl (str_join [newline] (drop 2 (str_split newline output)))
                                       (parent (Path f))]), w)))"
proof -
  from assms have "0 < length (str_split newline output)" "1 < length (str_split newline output)"
    by linarith+
  then have "getitem (str_split newline output) 0 = Inr (str_split newline output ! 0)"
    "getitem (str_split newline output) 1 = Inr (str_split newline output ! 1)"
    by (simp_all add: getitem_def)
  then show ?thesis
    by (simp add: get_or_node_details_parse_def Let_def split: option.splits)
qed

lemma get_or_node_details_parse_no_title:
  assumes "re_match ''title:'' (str_split newline output ! 0) = None"
  shows "get_or_node_details_parse rl output w =
    (Inl (HTTPException 404 ''No node found''),
     logging_error (''Unable to parse output from emacsclient: '' @ output) w)"
proof -
  have "0 < length (str_split newline output)"
    using str_split_not_Nil [of newline "output"] by simp
  then have "getitem (str_split newline output) 0 = Inr (str_split newline output ! 0)"
    by (simp add: getitem_def)
  with assms show ?thesis
    by (simp add: get_or_node_details_parse_def Let_def)
qed

lemma get_or_node_details_parse_success:
  assumes "get_or_node_details_parse rl output w = (Inr (Some d), w')"
  shows "\<exists>t f. 2 \<le> length (str_split newline output) \<and>
           re_match ''title:'' (str_split newline output ! 0) = Some t \<and>
           re_match ''file:'' (str_split newline output ! 1) = Some f \<and>
           d = [''title'' \<mapsto> t, ''file'' \<mapsto> f,
                ''html'' \<mapsto> rl (str_join [newline] (drop 2 (str_split newline output))) (parent (Path f))] \<and>
           w' = w"
  using assms
  by (auto simp: get_or_node_details_parse_def Let_def getitem_def
           split: sum.splits option.splits if_splits)

lemma get_or_node_details_success:
  assumes "get_or_node_details os rl n w = Some (Inr (Some d), w')"
  shows "\<exists>output w0. get_or_node_details_parse rl output w0 = (Inr (Some d), w')"
  using assms
  by (auto simp: get_or_node_details_def format_ELISP_GND
           split: option.splits sum.splits prod.splits)

lemma split_header:
  assumes "newline \<notin> set t" "newline \<notin> set f"
  shows "str_split newline (''title:'' @ t @ newline # ''file:'' @ f @ newline # body)
       = (''title:'' @ t) # (''file:'' @ f) # str_split newline body"
proof -
  have a: "newline \<notin> set (''title:'' @ t)" and b: "newline \<notin> set (''file:'' @ f)"
    using assms by (auto simp: newline_def)
  have "str_split newline ((''title:'' @ t) @ newline # ((''file:'' @ f) @ newline # body))
       = (''title:'' @ t) # (''file:'' @ f) # str_split newline body"
    by (simp only: str_split_append [OF a] str_split_append [OF b])
  then show ?thesis by simp
qed

lemma stub_details:
  assumes "utf8_valid content"
  shows "get_or_node_details (emacs_stub code [] content) rl n world0
       = Some (get_or_node_details_parse rl content world0)"
proof -
  have "ask_emacs (emacs_stub code [] content)
          (case str_format ELISP_GND [''node_id'' \<mapsto> n] of Inr e \<Rightarrow> e | Inl x \<Rightarrow> [])
          False world0 = Some (Inr content, world0)"
    using assms by (simp only: stub_ask_emacs decode_utf8_def if_True)
  then show ?thesis
    by (simp add: get_or_node_details_def format_ELISP_GND del: append_assoc)
qed

lemma parent_eq_iff: "parent p = p \<longleftrightarrow> tail p = []"
proof
  assume a: "parent p = p"
  show "tail p = []"
  proof (rule ccontr)
    assume n: "tail p \<noteq> []"
    then have "tail (parent p) = butlast (tail p)" by (simp add: parent_def)
    with a have "butlast (tail p) = tail p" by simp
    then have "length (butlast (tail p)) = length (tail p)" by simp
    then have "length (tail p) - 1 = length (tail p)" by (simp only: length_butlast)
    then have "length (tail p) = 0" by arith
    with n show False by simp
  qed
next
  assume "tail p = []"
  then show "parent p = p" by (simp add: parent_def)
qed

lemma Path_tail:
  "tail (Path p) = filter (\<lambda>x. x \<noteq> [] \<and> x \<noteq> ''.'') (str_split CHR ''/'' p)"
proof (cases p)
  case Nil
  then show ?thesis by (simp add: Path_def)
next
  case (Cons c q)
  show ?thesis
  proof (cases "c = CHR ''/''")
    case False
    with Cons show ?thesis by (simp add: Path_def splitroot_def)
  next
    case True
    show ?thesis
    proof (cases q)
      case Nil
      with True Cons show ?thesis by (simp add: Path_def splitroot_def)
    next
      case (Cons d r)
      with True \<open>p = c # q\<close> show ?thesis
        by (cases r) (auto simp: Path_def splitroot_def)
    qed
  qed
qed

lemma parent_is_self_iff:
  "parent (Path f) = Path f \<longleftrightarrow> (\<forall>x \<in> set (str_split CHR ''/'' f). x = [] \<or> x = ''.'')"
  unfolding parent_eq_iff Path_tail by (auto simp: filter_empty_conv)

text \<open>
  Claim C9.  The template holds the field \<^verbatim>\<open>{node_id}\<close> between double quotes, once.
  For every node id, \<^verbatim>\<open>ELISP_GND.format(node_id=or_node_id)\<close> is the template with
  the characters of the id, whatever they are, in the place of the field, and this is
  the snippet that \<^verbatim>\<open>get_or_node_details\<close> hands to \<^verbatim>\<open>ask_emacs\<close>.
\<close>

theorem node_id_substituted_verbatim:
  \<open>\<exists>post. ELISP_GND = ''(let ((fnpos (org-roam-id-find "{node_id}"'' @ post \<and>
      (\<forall>n. str_format ELISP_GND [''node_id'' \<mapsto> n]
             = Inr (''(let ((fnpos (org-roam-id-find "'' @ n @ ''"'' @ post)) \<and>
      (\<forall>os rl n w.
          get_or_node_details os rl n w
            = (case ask_emacs os (''(let ((fnpos (org-roam-id-find "'' @ n @ ''"'' @ post) False w of
                 None \<Rightarrow> None
               | Some (Inl e, w') \<Rightarrow> Some (Inl e, w')
               | Some (Inr output, w') \<Rightarrow> Some (get_or_node_details_parse rl output w')))\<close>
proof (intro exI conjI allI)
  show \<open>ELISP_GND = ''(let ((fnpos (org-roam-id-find "{node_id}"'' @ drop 42 ELISP_GND\<close>
    by (simp add: ELISP_GND_def)
  have d: \<open>drop 42 ELISP_GND = 
          '')))\<newline>'' @
          ''  (when fnpos\<newline>'' @
          ''    (with-temp-buffer\<newline>'' @
          ''      (insert-file-contents (car fnpos))\<newline>'' @
          ''      (goto-char (cdr fnpos))\<newline>'' @
          ''      (let* ((node (org-roam-node-at-point))\<newline>'' @
          ''             (html (org-export-as 'html (org-at-heading-p) nil t)))\<newline>'' @
          ''        (format "title:%s\<newline>'' @
          ''file:%s\<newline>'' @
          ''%s" (org-roam-node-title node) (org-roam-node-file node) html)\<newline>'' @
          ''        ))))\<newline>''\<close>
    by (simp add: ELISP_GND_def)
  show f: \<open>str_format ELISP_GND [''node_id'' \<mapsto> n]
             = Inr (''(let ((fnpos (org-roam-id-find "'' @ n @ ''"'' @ drop 42 ELISP_GND)\<close> for n
    unfolding d by (simp add: format_ELISP_GND)
  show \<open>get_or_node_details os rl n w
            = (case ask_emacs os (''(let ((fnpos (org-roam-id-find "'' @ n @ ''"'' @ drop 42 ELISP_GND) False w of
                 None \<Rightarrow> None
               | Some (Inl e, w') \<Rightarrow> Some (Inl e, w')
               | Some (Inr output, w') \<Rightarrow> Some (get_or_node_details_parse rl output w'))\<close> for os rl n w
    unfolding get_or_node_details_def f by simp
qed

text \<open>
  An instance: a node id with a double quote in it ends the string literal of the
  snippet early.
\<close>

theorem node_id_substituted_verbatim_witness:
  \<open>\<exists>post. str_format ELISP_GND [''node_id'' \<mapsto> ''a") (kill-emacs) (list "'']
           = Inr (''(let ((fnpos (org-roam-id-find "a") (kill-emacs) (list ""'' @ post)\<close>
proof -
  from node_id_substituted_verbatim obtain post where
    \<open>\<forall>n. str_format ELISP_GND [''node_id'' \<mapsto> n]
             = Inr (''(let ((fnpos (org-roam-id-find "'' @ n @ ''"'' @ post)\<close>
    by blast
  then have \<open>str_format ELISP_GND [''node_id'' \<mapsto> ''a") (kill-emacs) (list "'']
           = Inr (''(let ((fnpos (org-roam-id-find "'' @ ''a") (kill-emacs) (list "'' @ ''"'' @ post)\<close>
    by (rule spec)
  then show ?thesis by simp
qed

text \<open>
  Claim C1 says that \<^verbatim>\<open>get_or_node_details\<close> fails with the 404 error and logs the raw
  output when either header line does not match, and that it never returns a value that
  is not a \<^verbatim>\<open>{title, file, html}\<close> dictionary.  The \<^verbatim>\<open>else\<close> that logs and raises is
  attached to the test of the title line only: when the title line matches and the file
  line does not, the function returns \<^verbatim>\<open>None\<close> and logs nothing; when the title line
  matches and there is no second line, \<^verbatim>\<open>lines[1]\<close> raises \<^verbatim>\<open>IndexError\<close>.
\<close>

theorem details_file_line_mismatch_returns_None:
  "get_or_node_details (emacs_stub 0 [] ''title:T\<newline>nofile'') rl n world0 = Some (Inr None, world0)
   \<and> get_or_node_details (emacs_stub 0 [] ''title:T'') rl n world0 = Some (Inl IndexError, world0)"
proof -
  have a: "utf8_valid ''title:T\<newline>nofile''" and b: "utf8_valid ''title:T''" by simp_all
  have "get_or_node_details_parse rl ''title:T\<newline>nofile'' world0 = (Inr None, world0)"
    by (simp add: get_or_node_details_parse_def getitem_def re_match_def newline_def)
  moreover have "get_or_node_details_parse rl ''title:T'' world0 = (Inl IndexError, world0)"
    by (simp add: get_or_node_details_parse_def getitem_def re_match_def newline_def)
  ultimately show ?thesis
    by (simp only: stub_details [OF a] stub_details [OF b])
qed

text \<open>
  Claim C7.  When the first two lines of the output match \<^verbatim>\<open>title:\<close> and
  \<^verbatim>\<open>file:\<close>, the HTML handed to the link rewriter is the lines from index 2 onward
  joined with line feeds.  So for an output made of the two header lines followed by a
  body, the HTML is the body as it is, with every line feed in it.  For the output
  \<^verbatim>\<open>title:T\<close>, \<^verbatim>\<open>file:/a/b.org\<close>, \<^verbatim>\<open><div>line1</div>\<close>, \<^verbatim>\<open><div>line2</div>\<close>
  the title is \<^verbatim>\<open>T\<close>, the file is \<^verbatim>\<open>/a/b.org\<close> and the HTML before rewriting is
  the last two lines with the line feed between them.
\<close>

theorem detail_html_is_rejoined_tail:
  "(str_format ELISP_GND [''node_id'' \<mapsto> n] = Inr elisp \<and>
    ask_emacs os elisp False w = Some (Inr output, w') \<and>
    2 \<le> length (str_split newline output) \<and>
    re_match ''title:'' (str_split newline output ! 0) = Some t \<and>
    re_match ''file:'' (str_split newline output ! 1) = Some f
    \<longrightarrow> get_or_node_details os rl n w
          = Some (Inr (Some [''title'' \<mapsto> t, ''file'' \<mapsto> f,
                             ''html'' \<mapsto> rl (str_join [newline] (drop 2 (str_split newline output)))
                                            (parent (Path f))]), w'))
   \<and> (str_format ELISP_GND [''node_id'' \<mapsto> n] = Inr elisp \<and>
    ask_emacs os elisp False w
      = Some (Inr (''title:'' @ t @ newline # ''file:'' @ f @ newline # body), w') \<and>
    t \<noteq> [] \<and> f \<noteq> [] \<and> newline \<notin> set t \<and> newline \<notin> set f
    \<longrightarrow> get_or_node_details os rl n w
          = Some (Inr (Some [''title'' \<mapsto> t, ''file'' \<mapsto> f,
                             ''html'' \<mapsto> rl body (parent (Path f))]), w'))
   \<and> get_or_node_details
        (emacs_stub 0 [] ''title:T\<newline>file:/a/b.org\<newline><div>line1</div>\<newline><div>line2</div>'')
        rl n world0
       = Some (Inr (Some [''title'' \<mapsto> ''T'', ''file'' \<mapsto> ''/a/b.org'',
                          ''html'' \<mapsto> rl ''<div>line1</div>\<newline><div>line2</div>''
                                         (parent (Path ''/a/b.org''))]), world0)"
proof (intro conjI impI)
  assume a: "str_format ELISP_GND [''node_id'' \<mapsto> n] = Inr elisp \<and>
    ask_emacs os elisp False w = Some (Inr output, w') \<and>
    2 \<le> length (str_split newline output) \<and>
    re_match ''title:'' (str_split newline output ! 0) = Some t \<and>
    re_match ''file:'' (str_split newline output ! 1) = Some f"
  then have "get_or_node_details os rl n w = Some (get_or_node_details_parse rl output w')"
    by (simp add: get_or_node_details_via_output)
  with a show "get_or_node_details os rl n w
          = Some (Inr (Some [''title'' \<mapsto> t, ''file'' \<mapsto> f,
                             ''html'' \<mapsto> rl (str_join [newline] (drop 2 (str_split newline output)))
                                            (parent (Path f))]), w')"
    by (simp add: get_or_node_details_parse_two)
next
  let ?out = "''title:'' @ t @ newline # ''file:'' @ f @ newline # body"
  assume a: "str_format ELISP_GND [''node_id'' \<mapsto> n] = Inr elisp \<and>
    ask_emacs os elisp False w = Some (Inr ?out, w') \<and>
    t \<noteq> [] \<and> f \<noteq> [] \<and> newline \<notin> set t \<and> newline \<notin> set f"
  then have "newline \<notin> set t" "newline \<notin> set f" by blast+
  then have sp: "str_split newline ?out = (''title:'' @ t) # (''file:'' @ f) # str_split newline body"
    by (rule split_header)
  have len: "2 \<le> length (str_split newline ?out)"
    unfolding sp by simp
  have nt: "newline \<notin> set (''title:'' @ t)" and nf: "newline \<notin> set (''file:'' @ f)"
    using a by (auto simp: newline_def)
  have mt: "re_match ''title:'' (''title:'' @ t) = Some t"
    using a re_match_line [OF nt, of "''title:''" t] by blast
  have mf: "re_match ''file:'' (''file:'' @ f) = Some f"
    using a re_match_line [OF nf, of "''file:''" f] by blast
  have "get_or_node_details_parse rl ?out w'
      = (Inr (Some [''title'' \<mapsto> t, ''file'' \<mapsto> f,
                    ''html'' \<mapsto> rl (str_join [newline] (str_split newline body)) (parent (Path f))]), w')"
    unfolding get_or_node_details_parse_two [OF len] sp using mt mf by simp
  then have "get_or_node_details_parse rl ?out w'
      = (Inr (Some [''title'' \<mapsto> t, ''file'' \<mapsto> f, ''html'' \<mapsto> rl body (parent (Path f))]), w')"
    by (simp only: str_join_split)
  with a show "get_or_node_details os rl n w
          = Some (Inr (Some [''title'' \<mapsto> t, ''file'' \<mapsto> f,
                             ''html'' \<mapsto> rl body (parent (Path f))]), w')"
    by (simp only: get_or_node_details_via_output)
next
  let ?out = "''title:T\<newline>file:/a/b.org\<newline><div>line1</div>\<newline><div>line2</div>''"
  have v: "utf8_valid ?out" by simp
  have "get_or_node_details_parse rl ?out world0
      = (Inr (Some [''title'' \<mapsto> ''T'', ''file'' \<mapsto> ''/a/b.org'',
                    ''html'' \<mapsto> rl ''<div>line1</div>\<newline><div>line2</div>''
                                   (parent (Path ''/a/b.org''))]), world0)"
    by (simp add: get_or_node_details_parse_def getitem_def re_match_def newline_def)
  then show "get_or_node_details (emacs_stub 0 [] ?out) rl n world0
       = Some (Inr (Some [''title'' \<mapsto> ''T'', ''file'' \<mapsto> ''/a/b.org'',
                          ''html'' \<mapsto> rl ''<div>line1</div>\<newline><div>line2</div>''
                                         (parent (Path ''/a/b.org''))]), world0)"
    by (simp only: stub_details [OF v])
qed

text \<open>
  Instances: an output of the two header lines alone gives the empty HTML; a body that
  starts with an empty line and ends with a line feed comes back unchanged.
\<close>

theorem detail_html_is_rejoined_tail_witness:
  "get_or_node_details (emacs_stub 0 [] ''title:A\<newline>file:/d/n.org'') rewrite_links_stub ''n1'' world0
     = Some (Inr (Some [''title'' \<mapsto> ''A'', ''file'' \<mapsto> ''/d/n.org'',
                        ''html'' \<mapsto> ''[base=/d]'']), world0)
   \<and> get_or_node_details (emacs_stub 0 [] ''title:A\<newline>file:n.org\<newline>\<newline><p>\<newline>'')
         rewrite_links_stub ''n1'' world0
     = Some (Inr (Some [''title'' \<mapsto> ''A'', ''file'' \<mapsto> ''n.org'',
                        ''html'' \<mapsto> ''[base=.]\<newline><p>\<newline>'']), world0)"
proof (intro conjI)
  let ?out = "''title:A\<newline>file:/d/n.org''"
  let ?os = "emacs_stub 0 [] ?out"
  obtain elisp where e: "str_format ELISP_GND [''node_id'' \<mapsto> ''n1''] = Inr elisp"
    using format_ELISP_GND [of "''n1''"] by blast
  have sp: "str_split newline ?out = [''title:A'', ''file:/d/n.org'']"
    by (simp add: newline_def)
  have "utf8_valid ?out" by simp
  then have ask: "ask_emacs ?os elisp False world0 = Some (Inr ?out, world0)"
    by (simp only: stub_ask_emacs decode_utf8_def if_True)
  have h: "str_format ELISP_GND [''node_id'' \<mapsto> ''n1''] = Inr elisp \<and>
    ask_emacs ?os elisp False world0 = Some (Inr ?out, world0) \<and>
    2 \<le> length (str_split newline ?out) \<and>
    re_match ''title:'' (str_split newline ?out ! 0) = Some ''A'' \<and>
    re_match ''file:'' (str_split newline ?out ! 1) = Some ''/d/n.org''"
    unfolding sp using e ask by (simp add: re_match_def newline_def)
  have p: "rewrite_links_stub (str_join [newline] (drop 2 (str_split newline ?out))) (parent (Path ''/d/n.org''))
        = ''[base=/d]''"
    unfolding sp
    by (simp add: rewrite_links_stub_def path_str_def parent_def Path_def splitroot_def)
  from detail_html_is_rejoined_tail [THEN conjunct1, rule_format, OF h, of rewrite_links_stub]
  show "get_or_node_details ?os rewrite_links_stub ''n1'' world0
     = Some (Inr (Some [''title'' \<mapsto> ''A'', ''file'' \<mapsto> ''/d/n.org'',
                        ''html'' \<mapsto> ''[base=/d]'']), world0)"
    unfolding p .
next
  let ?out = "''title:A\<newline>file:n.org\<newline>\<newline><p>\<newline>''"
  let ?os = "emacs_stub 0 [] ?out"
  obtain elisp where e: "str_format ELISP_GND [''node_id'' \<mapsto> ''n1''] = Inr elisp"
    using format_ELISP_GND [of "''n1''"] by blast
  have "utf8_valid ?out" by simp
  then have ask: "ask_emacs ?os elisp False world0 = Some (Inr ?out, world0)"
    by (simp only: stub_ask_emacs decode_utf8_def if_True)
  have o: "?out = ''title:'' @ ''A'' @ newline # ''file:'' @ ''n.org'' @ newline # ''\<newline><p>\<newline>''"
    by (simp add: newline_def)
  have h: "str_format ELISP_GND [''node_id'' \<mapsto> ''n1''] = Inr elisp \<and>
    ask_emacs ?os elisp False world0
      = Some (Inr (''title:'' @ ''A'' @ newline # ''file:'' @ ''n.org'' @ newline # ''\<newline><p>\<newline>''), world0) \<and>
    ''A'' \<noteq> [] \<and> ''n.org'' \<noteq> [] \<and> newline \<notin> set ''A'' \<and> newline \<notin> set ''n.org''"
    using e ask unfolding o by (simp add: newline_def)
  have p: "rewrite_links_stub ''\<newline><p>\<newline>'' (parent (Path ''n.org'')) = ''[base=.]\<newline><p>\<newline>''"
    by (simp add: rewrite_links_stub_def path_str_def parent_def Path_def splitroot_def)
  from detail_html_is_rejoined_tail [THEN conjunct2, THEN conjunct1, rule_format, OF h, of rewrite_links_stub]
  show "get_or_node_details ?os rewrite_links_stub ''n1'' world0
     = Some (Inr (Some [''title'' \<mapsto> ''A'', ''file'' \<mapsto> ''n.org'',
                        ''html'' \<mapsto> ''[base=.]\<newline><p>\<newline>'']), world0)"
    unfolding p .
qed

text \<open>
  Claim C8 says that the link rewriter is called with the parent directory of the parsed
  file path and never with the file path itself.  The directory is
  \<^verbatim>\<open>Path(fn).parent\<close>, and a path without components is its own parent: for the
  output \<^verbatim>\<open>title:T\<close>, \<^verbatim>\<open>file:/\<close>, \<^verbatim>\<open><p>x</p>\<close> the call succeeds and the
  rewriter receives \<^verbatim>\<open>/\<close>, the parsed file path itself.
\<close>

theorem rewriter_gets_file_path_at_root:
  "get_or_node_details (emacs_stub 0 [] ''title:T\<newline>file:/\<newline><p>x</p>'') rewrite_links_stub ''n1'' world0
     = Some (Inr (Some [''title'' \<mapsto> ''T'', ''file'' \<mapsto> ''/'',
                        ''html'' \<mapsto> rewrite_links_stub ''<p>x</p>'' (Path ''/'')]), world0)
   \<and> parent (Path ''/'') = Path ''/''
   \<and> path_str (Path ''/'') = ''/''"
proof -
  let ?out = "''title:T\<newline>file:/\<newline><p>x</p>''"
  have v: "utf8_valid ?out" by simp
  have p: "parent (Path ''/'') = Path ''/''"
    by (simp add: parent_def Path_def splitroot_def)
  have "get_or_node_details_parse rewrite_links_stub ?out world0
      = (Inr (Some [''title'' \<mapsto> ''T'', ''file'' \<mapsto> ''/'',
                    ''html'' \<mapsto> rewrite_links_stub ''<p>x</p>'' (parent (Path ''/''))]), world0)"
    by (simp add: get_or_node_details_parse_def getitem_def re_match_def newline_def)
  then have "get_or_node_details (emacs_stub 0 [] ?out) rewrite_links_stub ''n1'' world0
     = Some (Inr (Some [''title'' \<mapsto> ''T'', ''file'' \<mapsto> ''/'',
                        ''html'' \<mapsto> rewrite_links_stub ''<p>x</p>'' (Path ''/'')]), world0)"
    by (simp only: stub_details [OF v] p)
  moreover have "path_str (Path ''/'') = ''/''"
    by (simp add: path_str_def Path_def splitroot_def)
  ultimately show ?thesis using p by blast
qed

text \<open>
  Claim C8, as amended.  On every successful call the \<^verbatim>\<open>html\<close> field is the result
  of the link rewriter, unchanged, applied to the lines from index 2 onward joined with
  line feeds and to \<^verbatim>\<open>Path(fn).parent\<close>, where \<open>fn\<close> is the parsed \<^verbatim>\<open>file\<close>
  field.  That directory is the path without its last component; it is the file path
  itself exactly when the path has no component, that is when every piece of \<open>fn\<close>
  between slashes is empty or a single dot.
\<close>

theorem rewriter_gets_parent_directory:
  "str_format ELISP_GND [''node_id'' \<mapsto> n] = Inr elisp \<and>
   ask_emacs os elisp False w = Some (Inr output, w') \<and>
   get_or_node_details os rl n w = Some (Inr (Some d), w'')
   \<longrightarrow> (\<exists>t f. re_match ''title:'' (str_split newline output ! 0) = Some t \<and>
             re_match ''file:'' (str_split newline output ! 1) = Some f \<and>
             d = [''title'' \<mapsto> t, ''file'' \<mapsto> f,
                  ''html'' \<mapsto> rl (str_join [newline] (drop 2 (str_split newline output)))
                                 (parent (Path f))] \<and>
             (parent (Path f) = Path f \<longleftrightarrow> tail (Path f) = []) \<and>
             (tail (Path f) = [] \<longleftrightarrow> (\<forall>x \<in> set (str_split CHR ''/'' f). x = [] \<or> x = ''.'')) \<and>
             (tail (Path f) \<noteq> [] \<longrightarrow>
                parent (Path f) = \<lparr>root = root (Path f), tail = butlast (tail (Path f))\<rparr>))"
proof
  assume a: "str_format ELISP_GND [''node_id'' \<mapsto> n] = Inr elisp \<and>
   ask_emacs os elisp False w = Some (Inr output, w') \<and>
   get_or_node_details os rl n w = Some (Inr (Some d), w'')"
  then have e: "str_format ELISP_GND [''node_id'' \<mapsto> n] = Inr elisp"
    and k: "ask_emacs os elisp False w = Some (Inr output, w')"
    by blast+
  have "get_or_node_details os rl n w = Some (get_or_node_details_parse rl output w')"
    by (rule get_or_node_details_via_output [OF e k])
  moreover from a have "get_or_node_details os rl n w = Some (Inr (Some d), w'')" by blast
  ultimately have "get_or_node_details_parse rl output w' = (Inr (Some d), w'')" by simp
  from get_or_node_details_parse_success [OF this]
  obtain t f where
    "re_match ''title:'' (str_split newline output ! 0) = Some t"
    "re_match ''file:'' (str_split newline output ! 1) = Some f"
    "d = [''title'' \<mapsto> t, ''file'' \<mapsto> f,
          ''html'' \<mapsto> rl (str_join [newline] (drop 2 (str_split newline output))) (parent (Path f))]"
    by blast
  moreover have "parent (Path f) = Path f \<longleftrightarrow> tail (Path f) = []"
    by (rule parent_eq_iff)
  moreover have "tail (Path f) = [] \<longleftrightarrow> (\<forall>x \<in> set (str_split CHR ''/'' f). x = [] \<or> x = ''.'')"
    using parent_is_self_iff [of f] parent_eq_iff [of "Path f"] by simp
  moreover have "tail (Path f) \<noteq> [] \<longrightarrow>
      parent (Path f) = \<lparr>root = root (Path f), tail = butlast (tail (Path f))\<rparr>"
    by (simp add: parent_def)
  ultimately show "\<exists>t f. re_match ''title:'' (str_split newline output ! 0) = Some t \<and>
             re_match ''file:'' (str_split newline output ! 1) = Some f \<and>
             d = [''title'' \<mapsto> t, ''file'' \<mapsto> f,
                  ''html'' \<mapsto> rl (str_join [newline] (drop 2 (str_split newline output)))
                                 (parent (Path f))] \<and>
             (parent (Path f) = Path f \<longleftrightarrow> tail (Path f) = []) \<and>
             (tail (Path f) = [] \<longleftrightarrow> (\<forall>x \<in> set (str_split CHR ''/'' f). x = [] \<or> x = ''.'')) \<and>
             (tail (Path f) \<noteq> [] \<longrightarrow>
                parent (Path f) = \<lparr>root = root (Path f), tail = butlast (tail (Path f))\<rparr>)"
    by blast
qed

text \<open>An instance: for \<^verbatim>\<open>file:/a/b.org\<close> the rewriter receives \<^verbatim>\<open>/a\<close>.\<close>

theorem rewriter_gets_parent_directory_witness:
  "get_or_node_details (emacs_stub 0 [] ''title:T\<newline>file:/a/b.org\<newline><p>'') rewrite_links_stub ''n1'' world0
     = Some (Inr (Some [''title'' \<mapsto> ''T'', ''file'' \<mapsto> ''/a/b.org'',
                        ''html'' \<mapsto> ''[base=/a]<p>'']), world0)
   \<and> (\<exists>t f. [''title'' \<mapsto> ''T'', ''file'' \<mapsto> ''/a/b.org'', ''html'' \<mapsto> ''[base=/a]<p>'']
              = [''title'' \<mapsto> t, ''file'' \<mapsto> f,
                 ''html'' \<mapsto> rewrite_links_stub
                    (str_join [newline] (drop 2 (str_split newline ''title:T\<newline>file:/a/b.org\<newline><p>'')))
                    (parent (Path f))] \<and>
             re_match ''file:'' (str_split newline ''title:T\<newline>file:/a/b.org\<newline><p>'' ! 1) = Some f \<and>
             (parent (Path f) = Path f \<longleftrightarrow> tail (Path f) = []))"
proof -
  let ?out = "''title:T\<newline>file:/a/b.org\<newline><p>''"
  let ?os = "emacs_stub 0 [] ?out"
  let ?d = "[''title'' \<mapsto> ''T'', ''file'' \<mapsto> ''/a/b.org'', ''html'' \<mapsto> ''[base=/a]<p>'']"
  obtain elisp where e: "str_format ELISP_GND [''node_id'' \<mapsto> ''n1''] = Inr elisp"
    using format_ELISP_GND [of "''n1''"] by blast
  have v: "utf8_valid ?out" by simp
  then have ask: "ask_emacs ?os elisp False world0 = Some (Inr ?out, world0)"
    by (simp only: stub_ask_emacs decode_utf8_def if_True)
  have "get_or_node_details_parse rewrite_links_stub ?out world0 = (Inr (Some ?d), world0)"
    by (simp add: get_or_node_details_parse_def getitem_def re_match_def newline_def
          rewrite_links_stub_def path_str_def parent_def Path_def splitroot_def)
  then have g: "get_or_node_details ?os rewrite_links_stub ''n1'' world0 = Some (Inr (Some ?d), world0)"
    by (simp only: stub_details [OF v])
  have h: "str_format ELISP_GND [''node_id'' \<mapsto> ''n1''] = Inr elisp \<and>
     ask_emacs ?os elisp False world0 = Some (Inr ?out, world0) \<and>
     get_or_node_details ?os rewrite_links_stub ''n1'' world0 = Some (Inr (Some ?d), world0)"
    using e ask g by blast
  from rewriter_gets_parent_directory [rule_format, OF h] g
  show ?thesis by blast
qed

section \<open>Empty fields\<close>

text \<open>
  Claim C10.  A line that is the bare prefix does not match its pattern, and a captured
  group is never empty.  An output whose line 0 is \<^verbatim>\<open>id:\<close>, whose line 1 is
  \<^verbatim>\<open>title:\<close> or whose line 2 is \<^verbatim>\<open>file:\<close> makes \<^verbatim>\<open>select_node\<close> fail with the 404
  error, and a dictionary that \<^verbatim>\<open>select_node\<close> returns has three non-empty fields.  An
  output whose line 0 is \<^verbatim>\<open>title:\<close> makes \<^verbatim>\<open>get_or_node_details\<close> log the output and
  fail with the 404 error, and a dictionary that it returns has a non-empty title and a
  non-empty file.
\<close>

theorem bare_prefix_is_not_found:
  "re_match ''id:'' ''id:'' = None \<and> re_match ''title:'' ''title:'' = None \<and>
   re_match ''file:'' ''file:'' = None
   \<and> (\<forall>lit s g. re_match lit s = Some g \<longrightarrow> g \<noteq> [])
   \<and> (ask_emacs os ELISP_SN True w = Some (Inr output, w') \<and>
       (str_split newline output ! 0 = ''id:''
        \<or> (1 < length (str_split newline output) \<and> str_split newline output ! 1 = ''title:'')
        \<or> (2 < length (str_split newline output) \<and> str_split newline output ! 2 = ''file:''))
       \<longrightarrow> select_node os w = Some (Inl (HTTPException 404 ''No node selected''), w'))
   \<and> (select_node os w = Some (Inr d, w')
       \<longrightarrow> (\<exists>i t f. d = [''id'' \<mapsto> i, ''title'' \<mapsto> t, ''file'' \<mapsto> f] \<and>
                     i \<noteq> [] \<and> t \<noteq> [] \<and> f \<noteq> []))
   \<and> (str_format ELISP_GND [''node_id'' \<mapsto> n] = Inr elisp \<and>
       ask_emacs os elisp False w = Some (Inr output, w') \<and>
       str_split newline output ! 0 = ''title:''
       \<longrightarrow> get_or_node_details os rl n w
             = Some (Inl (HTTPException 404 ''No node found''),
                     logging_error (''Unable to parse output from emacsclient: '' @ output) w'))
   \<and> (get_or_node_details os rl n w = Some (Inr (Some d), w')
       \<longrightarrow> (\<exists>t f h. d = [''title'' \<mapsto> t, ''file'' \<mapsto> f, ''html'' \<mapsto> h] \<and> t \<noteq> [] \<and> f \<noteq> []))"
proof (intro conjI impI allI)
  show "re_match ''id:'' ''id:'' = None" "re_match ''title:'' ''title:'' = None"
    "re_match ''file:'' ''file:'' = None"
    by (rule re_match_bare)+
next
  fix lit s g
  assume "re_match lit s = Some g"
  then show "g \<noteq> []" by (rule re_match_nonempty)
next
  assume a: "ask_emacs os ELISP_SN True w = Some (Inr output, w') \<and>
       (str_split newline output ! 0 = ''id:''
        \<or> (1 < length (str_split newline output) \<and> str_split newline output ! 1 = ''title:'')
        \<or> (2 < length (str_split newline output) \<and> str_split newline output ! 2 = ''file:''))"
  then have "select_node_parse output = Inl (HTTPException 404 ''No node selected'')"
    by (intro select_node_parse_bare) blast
  moreover from a have "select_node os w = Some (select_node_parse output, w')"
    by (intro select_node_via_output) blast
  ultimately show "select_node os w = Some (Inl (HTTPException 404 ''No node selected''), w')"
    by simp
next
  assume "select_node os w = Some (Inr d, w')"
  then obtain out where "select_node_parse out = Inr d"
    using select_node_success by blast
  then show "\<exists>i t f. d = [''id'' \<mapsto> i, ''title'' \<mapsto> t, ''file'' \<mapsto> f] \<and>
                     i \<noteq> [] \<and> t \<noteq> [] \<and> f \<noteq> []"
    by (rule select_node_parse_success)
next
  assume a: "str_format ELISP_GND [''node_id'' \<mapsto> n] = Inr elisp \<and>
       ask_emacs os elisp False w = Some (Inr output, w') \<and>
       str_split newline output ! 0 = ''title:''"
  then have e: "str_format ELISP_GND [''node_id'' \<mapsto> n] = Inr elisp"
    and k: "ask_emacs os elisp False w = Some (Inr output, w')"
    and l: "str_split newline output ! 0 = ''title:''"
    by blast+
  from l have "re_match ''title:'' (str_split newline output ! 0) = None"
    by (simp only: re_match_bare)
  then have "get_or_node_details_parse rl output w'
      = (Inl (HTTPException 404 ''No node found''),
         logging_error (''Unable to parse output from emacsclient: '' @ output) w')"
    by (rule get_or_node_details_parse_no_title)
  with get_or_node_details_via_output [OF e k, of rl]
  show "get_or_node_details os rl n w
             = Some (Inl (HTTPException 404 ''No node found''),
                     logging_error (''Unable to parse output from emacsclient: '' @ output) w')"
    by simp
next
  assume "get_or_node_details os rl n w = Some (Inr (Some d), w')"
  then obtain out w0 where "get_or_node_details_parse rl out w0 = (Inr (Some d), w')"
    using get_or_node_details_success by blast
  from get_or_node_details_parse_success [OF this]
  show "\<exists>t f h. d = [''title'' \<mapsto> t, ''file'' \<mapsto> f, ''html'' \<mapsto> h] \<and> t \<noteq> [] \<and> f \<noteq> []"
    using re_match_nonempty by blast
qed

text \<open>
  Instances: an empty title in the output of the node finder, an empty title in the output
  of the detail fetcher, and the fields of a well-formed output.
\<close>

theorem bare_prefix_is_not_found_witness:
  "select_node (emacs_stub 0 [] ''id:abc\<newline>title:\<newline>file:/x.org'') world0
     = Some (Inl (HTTPException 404 ''No node selected''), world0)
   \<and> get_or_node_details (emacs_stub 0 [] ''title:\<newline>file:/x.org\<newline><p>'') rewrite_links_stub ''n1'' world0
     = Some (Inl (HTTPException 404 ''No node found''),
             world0\<lparr>log := [''Unable to parse output from emacsclient: title:\<newline>file:/x.org\<newline><p>'']\<rparr>)
   \<and> (\<exists>i t f. [''id'' \<mapsto> ''abc'', ''title'' \<mapsto> ''My Note'', ''file'' \<mapsto> ''/x/y.org'']
                = [''id'' \<mapsto> i, ''title'' \<mapsto> t, ''file'' \<mapsto> f] \<and> i \<noteq> [] \<and> t \<noteq> [] \<and> f \<noteq> [])"
proof (intro conjI)
  let ?out = "''id:abc\<newline>title:\<newline>file:/x.org''"
  have sp: "str_split newline ?out = [''id:abc'', ''title:'', ''file:/x.org'']"
    by (simp add: newline_def)
  have "utf8_valid ?out" by simp
  then have ask: "ask_emacs (emacs_stub 0 [] ?out) ELISP_SN True world0 = Some (Inr ?out, world0)"
    by (simp only: stub_ask_emacs decode_utf8_def if_True)
  have h: "ask_emacs (emacs_stub 0 [] ?out) ELISP_SN True world0 = Some (Inr ?out, world0) \<and>
       (str_split newline ?out ! 0 = ''id:''
        \<or> (1 < length (str_split newline ?out) \<and> str_split newline ?out ! 1 = ''title:'')
        \<or> (2 < length (str_split newline ?out) \<and> str_split newline ?out ! 2 = ''file:''))"
    unfolding sp using ask by simp
  from bare_prefix_is_not_found [THEN conjunct2, THEN conjunct2, THEN conjunct2, THEN conjunct2,
      THEN conjunct1, rule_format, OF h]
  show "select_node (emacs_stub 0 [] ?out) world0
     = Some (Inl (HTTPException 404 ''No node selected''), world0)" .
next
  let ?out = "''title:\<newline>file:/x.org\<newline><p>''"
  let ?os = "emacs_stub 0 [] ?out"
  obtain elisp where e: "str_format ELISP_GND [''node_id'' \<mapsto> ''n1''] = Inr elisp"
    using format_ELISP_GND [of "''n1''"] by blast
  have sp: "str_split newline ?out = [''title:'', ''file:/x.org'', ''<p>'']"
    by (simp add: newline_def)
  have "utf8_valid ?out" by simp
  then have ask: "ask_emacs ?os elisp False world0 = Some (Inr ?out, world0)"
    by (simp only: stub_ask_emacs decode_utf8_def if_True)
  have h: "str_format ELISP_GND [''node_id'' \<mapsto> ''n1''] = Inr elisp \<and>
       ask_emacs ?os elisp False world0 = Some (Inr ?out, world0) \<and>
       str_split newline ?out ! 0 = ''title:''"
    unfolding sp using e ask by simp
  have l: "logging_error (''Unable to parse output from emacsclient: '' @ ?out) world0
      = world0\<lparr>log := [''Unable to parse output from emacsclient: title:\<newline>file:/x.org\<newline><p>'']\<rparr>"
    by (simp add: logging_error_def world0_def)
  from bare_prefix_is_not_found [THEN conjunct2, THEN conjunct2, THEN conjunct2, THEN conjunct2,
      THEN conjunct2, THEN conjunct2, THEN conjunct1, rule_format, OF h, of rewrite_links_stub]
  show "get_or_node_details ?os rewrite_links_stub ''n1'' world0
     = Some (Inl (HTTPException 404 ''No node found''),
             world0\<lparr>log := [''Unable to parse output from emacsclient: title:\<newline>file:/x.org\<newline><p>'']\<rparr>)"
    unfolding l .
next
  let ?out = "''id:abc\<newline>title:My Note\<newline>file:/x/y.org''"
  have "utf8_valid ?out" by simp
  then have ask: "ask_emacs (emacs_stub 0 [] ?out) ELISP_SN True world0 = Some (Inr ?out, world0)"
    by (simp only: stub_ask_emacs decode_utf8_def if_True)
  have "select_node_parse ?out
     = Inr [''id'' \<mapsto> ''abc'', ''title'' \<mapsto> ''My Note'', ''file'' \<mapsto> ''/x/y.org'']"
    by (simp add: select_node_parse_def select_node_dict_def getitem_def re_match_def newline_def)
  with ask have h: "select_node (emacs_stub 0 [] ?out) world0
     = Some (Inr [''id'' \<mapsto> ''abc'', ''title'' \<mapsto> ''My Note'', ''file'' \<mapsto> ''/x/y.org''], world0)"
    by (simp only: select_node_via_output)
  from bare_prefix_is_not_found [THEN conjunct2, THEN conjunct2, THEN conjunct2, THEN conjunct2,
      THEN conjunct2, THEN conjunct1, rule_format, OF h]
  show "\<exists>i t f. [''id'' \<mapsto> ''abc'', ''title'' \<mapsto> ''My Note'', ''file'' \<mapsto> ''/x/y.org'']
                = [''id'' \<mapsto> i, ''title'' \<mapsto> t, ''file'' \<mapsto> f] \<and> i \<noteq> [] \<and> t \<noteq> [] \<and> f \<noteq> []" .
qed

end
